theory Spec2Isabelle
  imports Complex_Main "HOL-Library.Monad_Syntax"
begin

section \<open>Arrays\<close>

text \<open>
  The controller computes with numpy arrays of floats. A 1-D array is a list of numbers, a
  2-D array the list of its rows. Floating-point numbers are idealised as reals: rounding,
  infinities and NaN are outside this development. An operation that numpy refuses because
  the shapes of its operands do not fit returns \<open>None\<close>. A list of rows of different
  lengths is no array; the operations on 2-D arrays refuse it as well. A 2-D array with no
  row is the empty list whatever its column count; no array of the controller has zero rows
  where that would matter.
\<close>

type_synonym vec = "real list"
type_synonym mat = "real list list"

definition ncols :: "mat \<Rightarrow> nat" where
  "ncols A = (case A of [] \<Rightarrow> 0 | r # _ \<Rightarrow> length r)"

definition rect :: "mat \<Rightarrow> bool" where
  "rect A = list_all (\<lambda>r. length r = ncols A) A"

text \<open>\<^verbatim>\<open>np.zeros((r,c))\<close>, \<^verbatim>\<open>np.eye(n)\<close>, and \<^verbatim>\<open>np.block([[A, B]])\<close> for blocks of equal height.\<close>

definition zeros :: "nat \<Rightarrow> nat \<Rightarrow> mat" where
  "zeros r c = replicate r (replicate c 0)"

definition eye :: "nat \<Rightarrow> mat" where
  "eye n = map (\<lambda>i. map (\<lambda>j. if i = j then 1 else 0) [0..<n]) [0..<n]"

definition block_row :: "mat \<Rightarrow> mat \<Rightarrow> mat" where
  "block_row A B = map2 (@) A B"

text \<open>The arithmetic underneath \<^verbatim>\<open>@\<close>, \<^verbatim>\<open>+\<close>, \<^verbatim>\<open>-\<close> and scalar \<^verbatim>\<open>*\<close>, on operands whose shapes fit.\<close>

definition smul :: "real \<Rightarrow> vec \<Rightarrow> vec" where
  "smul k v = map ((*) k) v"

definition vadd :: "vec \<Rightarrow> vec \<Rightarrow> vec" where
  "vadd u v = map2 (+) u v"

definition dot :: "vec \<Rightarrow> vec \<Rightarrow> real" where
  "dot u v = sum_list (map2 (*) u v)"

definition mv :: "mat \<Rightarrow> vec \<Rightarrow> vec" where
  "mv A x = map (\<lambda>r. dot r x) A"

text \<open>\<open>lincomb c v A\<close> is the sum of the rows of \<open>A\<close> weighted by \<open>v\<close>, a vector of \<open>c\<close> entries.\<close>

fun lincomb :: "nat \<Rightarrow> vec \<Rightarrow> mat \<Rightarrow> vec" where
  "lincomb c (x # xs) (r # rs) = vadd (smul x r) (lincomb c xs rs)"
| "lincomb c _ _ = replicate c 0"

text \<open>
  \<^verbatim>\<open>u @ v\<close> on two 1-D arrays (a number), \<^verbatim>\<open>v @ A\<close> on a 1-D and a 2-D array, \<^verbatim>\<open>A @ x\<close> on a
  2-D and a 1-D array. numpy raises ValueError when the contracted dimensions differ.
\<close>

definition matmul_vv :: "vec \<Rightarrow> vec \<Rightarrow> real option" where
  "matmul_vv u v = (if length u = length v then Some (dot u v) else None)"

definition matmul_vm :: "vec \<Rightarrow> mat \<Rightarrow> vec option" where
  "matmul_vm v A =
     (if rect A \<and> length v = length A then Some (lincomb (ncols A) v A) else None)"

definition matmul_mv :: "mat \<Rightarrow> vec \<Rightarrow> vec option" where
  "matmul_mv A x =
     (if rect A \<and> ncols A = length x then Some (mv A x) else None)"

text \<open>
  Elementwise \<^verbatim>\<open>+\<close> and \<^verbatim>\<open>-\<close> on 1-D arrays, with numpy's broadcasting: equal lengths, or
  one operand of length 1 that is stretched; anything else raises ValueError.
\<close>

definition broadcast2 :: "(real \<Rightarrow> real \<Rightarrow> real) \<Rightarrow> vec \<Rightarrow> vec \<Rightarrow> vec option" where
  "broadcast2 f a b =
     (if length a = length b then Some (map2 f a b)
      else if length b = 1 then Some (map (\<lambda>x. f x (hd b)) a)
      else if length a = 1 then Some (map (\<lambda>y. f (hd a) y) b)
      else None)"

definition add :: "vec \<Rightarrow> vec \<Rightarrow> vec option" where
  "add a b = broadcast2 (+) a b"

definition sub :: "vec \<Rightarrow> vec \<Rightarrow> vec option" where
  "sub a b = broadcast2 (-) a b"

section \<open>The mathematical program\<close>

text \<open>
  Drake's \<^verbatim>\<open>MathematicalProgram\<close>, as far as the controller uses it: decision variables,
  costs and constraints, in the order they were added. A decision variable is identified
  by its id; the names (\<^verbatim>\<open>'vd'\<close>, \<^verbatim>\<open>'tau'\<close>, \<^verbatim>\<open>'f_j'\<close>, \<^verbatim>\<open>'delta'\<close>) are labels only and are left
  out. A bound of a constraint is a number or an infinity.
\<close>

type_synonym variable = nat

datatype bound = NegInf | Fin real | PosInf

fun bound_le_real :: "bound \<Rightarrow> real \<Rightarrow> bool" where
  "bound_le_real NegInf y = True"
| "bound_le_real (Fin x) y = (x \<le> y)"
| "bound_le_real PosInf y = False"

fun real_le_bound :: "real \<Rightarrow> bound \<Rightarrow> bool" where
  "real_le_bound y NegInf = False"
| "real_le_bound y (Fin x) = (y \<le> x)"
| "real_le_bound y PosInf = True"

text \<open>
  The costs and constraints added by the methods of this file are \<open>LinearCost\<close> and
  \<open>LinearConstraint\<close>. The other four are added by methods of the base class
  \<^verbatim>\<open>IDController\<close> (\<^verbatim>\<open>controllers/inverse_dynamics_controller.py\<close>); each is recorded with
  the arguments of the call.
\<close>

datatype cost =
    JacobianTypeCost mat "variable list" vec vec real
  | LinearCost vec real "variable list"

datatype constraint =
    LinearConstraint mat "bound list" "bound list" "variable list"
  | DynamicsConstraint mat "variable list" vec vec mat "variable list" "mat list"
      "variable list list"
  | FrictionPyramidConstraint "variable list list"
  | ContactConstraint "mat list" "variable list" "vec list" vec

record program =
  decision_variables :: "variable list"
  costs :: "cost list"
  constraints :: "constraint list"

definition MathematicalProgram :: program where
  "MathematicalProgram = \<lparr>decision_variables = [], costs = [], constraints = []\<rparr>"

text \<open>\<^verbatim>\<open>NewContinuousVariables(n, ...)\<close>: \<open>n\<close> fresh variables, appended to the program.\<close>

definition NewContinuousVariables :: "nat \<Rightarrow> program \<Rightarrow> variable list \<times> program" where
  "NewContinuousVariables n mp =
     (let new = map (\<lambda>i. length (decision_variables mp) + i) [0..<n]
      in (new, mp\<lparr>decision_variables := decision_variables mp @ new\<rparr>))"

text \<open>
  \<^verbatim>\<open>AddLinearCost(a, b, vars)\<close> and \<^verbatim>\<open>AddLinearConstraint(A, lb, ub, vars)\<close>. Drake refuses
  coefficients whose size does not fit the variables and bounds.
\<close>

definition AddLinearCost :: "vec \<Rightarrow> real \<Rightarrow> variable list \<Rightarrow> program \<Rightarrow> program option" where
  "AddLinearCost a b vars mp =
     (if length a = length vars then Some (mp\<lparr>costs := costs mp @ [LinearCost a b vars]\<rparr>)
      else None)"

definition AddLinearConstraint ::
  "mat \<Rightarrow> bound list \<Rightarrow> bound list \<Rightarrow> variable list \<Rightarrow> program \<Rightarrow> program option" where
  "AddLinearConstraint A lb ub vars mp =
     (if rect A \<and> ncols A = length vars \<and> length lb = length A \<and> length ub = length A
      then Some (mp\<lparr>constraints := constraints mp @ [LinearConstraint A lb ub vars]\<rparr>)
      else None)"

text \<open>
  A linear constraint \<open>lb \<le> A x \<le> ub\<close> holds under an assignment of values to the
  variables when every row does.
\<close>

definition row_holds :: "(variable \<Rightarrow> real) \<Rightarrow> variable list \<Rightarrow> vec \<times> bound \<times> bound \<Rightarrow> bool" where
  "row_holds sol vars row =
     (case row of (a, l, u) \<Rightarrow>
        bound_le_real l (dot a (map sol vars)) \<and> real_le_bound (dot a (map sol vars)) u)"

definition linear_holds ::
  "(variable \<Rightarrow> real) \<Rightarrow> mat \<Rightarrow> bound list \<Rightarrow> bound list \<Rightarrow> variable list \<Rightarrow> bool" where
  "linear_holds sol A lb ub vars = list_all (row_holds sol vars) (zip A (zip lb ub))"

section \<open>The controller\<close>

text \<open>
  The attributes of \<^verbatim>\<open>CLFController\<close>: the error dynamics \<open>F\<close>, \<open>G\<close>, the certificate \<open>P\<close>
  and the rate \<open>gamma\<close> set by the constructor, the program \<open>mp\<close> of the current tick, and
  the logged \<open>V\<close>, \<open>err\<close>, \<open>Vdot\<close>, which do not exist before the first tick.
\<close>

record CLFController =
  self_F :: mat
  self_G :: mat
  self_P :: mat
  self_gamma :: real
  self_mp :: program
  self_V :: "real option"
  self_err :: "real option"
  self_Vdot :: "real option"

text \<open>
  The constructor. The Riccati solver and the eigenvalue routine are numerical library
  routines; they are parameters here.
\<close>

definition CLF_F :: mat where
  "CLF_F = block_row (zeros 6 6) (eye 6) @ block_row (zeros 6 6) (zeros 6 6)"

definition CLF_G :: mat where
  "CLF_G = zeros 6 6 @ eye 6"

definition init ::
  "(mat \<Rightarrow> mat \<Rightarrow> mat \<Rightarrow> mat \<Rightarrow> mat) \<Rightarrow> (mat \<Rightarrow> real list) \<Rightarrow> CLFController" where
  "init ContinuousAlgebraicRiccatiEquation eigvals =
     (let Q = map (smul 100) (eye 12);
          R = eye 6;
          P = ContinuousAlgebraicRiccatiEquation CLF_F CLF_G Q R
      in \<lparr>self_F = CLF_F, self_G = CLF_G, self_P = P,
          self_gamma = Min (set (eigvals Q)) / Max (set (eigvals P)),
          self_mp = MathematicalProgram,
          self_V = None, self_err = None, self_Vdot = None\<rparr>)"

text \<open>\<^verbatim>\<open>AddVdotCost\<close>: the linear cost \<open>weight * 2 * eta' P G J\<close> on \<open>vd\<close>.\<close>

definition AddVdotCost ::
  "CLFController \<Rightarrow> vec \<Rightarrow> vec \<Rightarrow> mat \<Rightarrow> variable list \<Rightarrow> real \<Rightarrow> CLFController option" where
  "AddVdotCost self x_tilde xd_tilde J vd weight = do {
     let eta = x_tilde @ xd_tilde;
     eP \<leftarrow> matmul_vm (smul (weight * 2) eta) (self_P self);
     ePG \<leftarrow> matmul_vm eP (self_G self);
     a \<leftarrow> matmul_vm ePG J;
     mp' \<leftarrow> AddLinearCost a 0 vd (self_mp self);
     Some (self\<lparr>self_mp := mp'\<rparr>)
   }"

text \<open>
  \<^verbatim>\<open>AddVdotConstraint\<close>: one row \<open>lb \<le> A x \<le> ub\<close> over the variables \<open>vd\<close> followed by
  \<open>delta\<close>, with \<open>lb\<close> minus infinity.
\<close>

definition AddVdotConstraint ::
  "CLFController \<Rightarrow> vec \<Rightarrow> vec \<Rightarrow> mat \<Rightarrow> variable list \<Rightarrow> vec \<Rightarrow> vec \<Rightarrow> variable list
     \<Rightarrow> CLFController option" where
  "AddVdotConstraint self x_tilde xd_tilde J vd Jdv xdd_nom delta = do {
     let eta = x_tilde @ xd_tilde;
     eP \<leftarrow> matmul_vm eta (self_P self);
     V \<leftarrow> matmul_vv eP eta;
     let lb = [NegInf];
     eP2 \<leftarrow> matmul_vm (smul 2 eta) (self_P self);
     ePG \<leftarrow> matmul_vm eP2 (self_G self);
     ePGJ \<leftarrow> matmul_vm ePG J;
     let A = [ePGJ @ [- 1]];
     let x = vd @ delta;
     ePF \<leftarrow> matmul_vm eP2 (self_F self);
     ePFe \<leftarrow> matmul_vv ePF eta;
     d \<leftarrow> sub Jdv xdd_nom;
     ePGd \<leftarrow> matmul_vv ePG d;
     let ub = [Fin (- self_gamma self * V - ePFe - ePGd)];
     mp' \<leftarrow> AddLinearConstraint A lb ub x (self_mp self);
     Some (self\<lparr>self_mp := mp'\<rparr>)
   }"

section \<open>One tick of the control law\<close>

text \<open>
  What \<^verbatim>\<open>ControlLaw\<close> reads each tick. The setpoint \<^verbatim>\<open>trunk_data\<close> is a dictionary with fixed
  keys, a record here. The robot's quantities come from the multibody plant through the
  base class (\<^verbatim>\<open>CalcDynamics\<close>, \<^verbatim>\<open>CalcFramePoseQuantities\<close>, \<^verbatim>\<open>CalcFramePositionQuantities\<close>);
  their results at the current state are inputs: the body's position and roll-pitch-yaw
  angles, its Jacobian and bias term, and position, Jacobian and bias term of each foot.
\<close>

record trunk_data =
  td_contact_states :: "bool list"
  td_p_body :: vec
  td_pd_body :: vec
  td_pdd_body :: vec
  td_rpy_body :: vec
  td_rpyd_body :: vec
  td_rpydd_body :: vec
  td_p_lf :: vec
  td_p_rf :: vec
  td_p_lh :: vec
  td_p_rh :: vec
  td_pd_lf :: vec
  td_pd_rf :: vec
  td_pd_lh :: vec
  td_pd_rh :: vec
  td_pdd_lf :: vec
  td_pdd_rf :: vec
  td_pdd_lh :: vec
  td_pdd_rh :: vec

record measured =
  m_M :: mat
  m_Cv :: vec
  m_tau_g :: vec
  m_S :: mat
  m_p_body :: vec
  m_rpy_body :: vec
  m_J_body :: mat
  m_Jdv_body :: vec
  m_lf :: "vec \<times> mat \<times> vec"
  m_rf :: "vec \<times> mat \<times> vec"
  m_lh :: "vec \<times> mat \<times> vec"
  m_rh :: "vec \<times> mat \<times> vec"

text \<open>
  The library routines the tick calls: the sizes of the plant, the two conversions of
  Drake's \<^verbatim>\<open>RollPitchYaw\<close> object (given by its angles) between angular velocity and the
  rate of the angles, which may raise, and the solver with its result.
\<close>

record result =
  is_success :: bool
  GetSolution :: "variable \<Rightarrow> real"

record plant =
  num_velocities :: nat
  num_actuators :: nat
  CalcRpyDtFromAngularVelocityInParent :: "vec \<Rightarrow> vec \<Rightarrow> vec option"
  CalcAngularVelocityInParentFromRpyDt :: "vec \<Rightarrow> vec \<Rightarrow> vec option"
  Solve :: "program \<Rightarrow> result"

datatype error = ShapeError | AssertionError

text \<open>
  \<^verbatim>\<open>np.array\<close> on a list of 1-D arrays or of 2-D arrays of one shape, \<^verbatim>\<open>reshape(4,3)\<close>,
  indexing by a list of booleans (which must be as long as the array, except that the
  empty list is an empty index and selects nothing), \<^verbatim>\<open>np.vstack\<close>,
  and the batched product \<^verbatim>\<open>J_feet@v\<close>.
\<close>

definition array2 :: "vec list \<Rightarrow> mat option" where
  "array2 vs = (if rect vs then Some vs else None)"

definition array3 :: "mat list \<Rightarrow> mat list option" where
  "array3 As =
     (if list_all rect As \<and> list_all (\<lambda>A. length A = length (hd As) \<and> ncols A = ncols (hd As)) As
      then Some As else None)"

definition reshape_4_3 :: "mat \<Rightarrow> mat option" where
  "reshape_4_3 A = (if length A = 4 \<and> ncols A = 3 then Some A else None)"

definition mask :: "'a list \<Rightarrow> bool list \<Rightarrow> 'a list option" where
  "mask xs bs =
     (if bs = [] then Some []
      else if length bs = length xs then Some (map fst (filter snd (zip xs bs)))
      else None)"

definition vstack :: "mat list \<Rightarrow> mat option" where
  "vstack As = (if rect (concat As) then Some (concat As) else None)"

fun matmul_batch :: "mat list \<Rightarrow> vec \<Rightarrow> mat option" where
  "matmul_batch [] v = Some []"
| "matmul_batch (A # As) v = do {
     y \<leftarrow> matmul_mv A v;
     ys \<leftarrow> matmul_batch As v;
     Some (y # ys)
   }"

text \<open>
  The task-space quantities of the tick (lines 93 to 172 of the source): the partition of
  the feet, the stacked Jacobian and bias, the stacked measured and nominal task vectors
  and the errors. The gains \<^verbatim>\<open>Kp\<close>, \<^verbatim>\<open>Kd\<close> and the weights the source computes next are
  never used and are left out.
\<close>

record task_space =
  ts_contact_feet :: "bool list"
  ts_swing_feet :: "bool list"
  ts_num_contact :: nat
  ts_num_swing :: nat
  ts_J_c :: "mat list"
  ts_Jdv_c :: "vec list"
  ts_J :: mat
  ts_Jdv :: vec
  ts_x :: vec
  ts_xd :: vec
  ts_x_nom :: vec
  ts_xd_nom :: vec
  ts_xdd_nom :: vec
  ts_x_tilde :: vec
  ts_xd_tilde :: vec

definition ControlLaw_task_space ::
  "plant \<Rightarrow> measured \<Rightarrow> trunk_data \<Rightarrow> vec \<Rightarrow> task_space option" where
  "ControlLaw_task_space pl m td v = do {
     let contact_feet = td_contact_states td;
     let swing_feet = map Not contact_feet;
     let num_contact = length (filter id contact_feet);
     let num_swing = length (filter id swing_feet);
     let p_body_nom = td_p_body td;
     let pd_body_nom = td_pd_body td;
     let pdd_body_nom = td_pdd_body td;
     let rpy_body_nom = td_rpy_body td;
     let rpyd_body_nom = td_rpyd_body td;
     let rpydd_body_nom = td_rpydd_body td;
     p_feet_nom \<leftarrow> array2 [td_p_lf td, td_p_rf td, td_p_lh td, td_p_rh td];
     pd_feet_nom \<leftarrow> array2 [td_pd_lf td, td_pd_rf td, td_pd_lh td, td_pd_rh td];
     pdd_feet_nom \<leftarrow> array2 [td_pdd_lf td, td_pdd_rf td, td_pdd_lh td, td_pdd_rh td];
     p_s_nom \<leftarrow> mask p_feet_nom swing_feet;
     pd_s_nom \<leftarrow> mask pd_feet_nom swing_feet;
     pdd_s_nom \<leftarrow> mask pdd_feet_nom swing_feet;
     let p_body = m_p_body m;
     Jv \<leftarrow> matmul_mv (m_J_body m) v;
     let pd_body = drop 3 Jv;
     let rpy_body = m_rpy_body m;
     let omega_body = take 3 Jv;
     rpyd_body \<leftarrow> CalcRpyDtFromAngularVelocityInParent pl rpy_body omega_body;
     let (p_lf, J_lf, Jdv_lf) = m_lf m;
     let (p_rf, J_rf, Jdv_rf) = m_rf m;
     let (p_lh, J_lh, Jdv_lh) = m_lh m;
     let (p_rh, J_rh, Jdv_rh) = m_rh m;
     p_feet0 \<leftarrow> array2 [p_lf, p_rf, p_lh, p_rh];
     p_feet \<leftarrow> reshape_4_3 p_feet0;
     J_feet \<leftarrow> array3 [J_lf, J_rf, J_lh, J_rh];
     Jdv_feet \<leftarrow> array2 [Jdv_lf, Jdv_rf, Jdv_lh, Jdv_rh];
     pd_feet \<leftarrow> matmul_batch J_feet v;
     p_s \<leftarrow> mask p_feet swing_feet;
     pd_s \<leftarrow> mask pd_feet swing_feet;
     J_c \<leftarrow> mask J_feet contact_feet;
     Jdv_c \<leftarrow> mask Jdv_feet contact_feet;
     J_s \<leftarrow> mask J_feet swing_feet;
     Jdv_s \<leftarrow> mask Jdv_feet swing_feet;
     J \<leftarrow> (if list_ex id swing_feet then vstack [m_J_body m, concat J_s]
           else Some (m_J_body m));
     let Jdv = (if list_ex id swing_feet then m_Jdv_body m @ concat Jdv_s else m_Jdv_body m);
     let x = rpy_body @ p_body @ concat p_s;
     w \<leftarrow> CalcAngularVelocityInParentFromRpyDt pl rpy_body rpyd_body;
     let xd = w @ pd_body @ concat pd_s;
     let x_nom = rpy_body_nom @ p_body_nom @ concat p_s_nom;
     w_nom \<leftarrow> CalcAngularVelocityInParentFromRpyDt pl rpy_body rpyd_body_nom;
     let xd_nom = w_nom @ pd_body_nom @ concat pd_s_nom;
     wd_nom \<leftarrow> CalcAngularVelocityInParentFromRpyDt pl rpy_body rpydd_body_nom;
     let xdd_nom = wd_nom @ pdd_body_nom @ concat pdd_s_nom;
     x_tilde \<leftarrow> sub x x_nom;
     xd_tilde \<leftarrow> sub xd xd_nom;
     Some \<lparr>ts_contact_feet = contact_feet, ts_swing_feet = swing_feet,
       ts_num_contact = num_contact, ts_num_swing = num_swing,
       ts_J_c = J_c, ts_Jdv_c = Jdv_c, ts_J = J, ts_Jdv = Jdv,
       ts_x = x, ts_xd = xd, ts_x_nom = x_nom, ts_xd_nom = xd_nom, ts_xdd_nom = xdd_nom,
       ts_x_tilde = x_tilde, ts_xd_tilde = xd_tilde\<rparr>
   }"

text \<open>
  Modelled from the spec: \<^verbatim>\<open>IDController.AddJacobianTypeCost\<close>, of
  \<^verbatim>\<open>controllers/inverse_dynamics_controller.py\<close>, which is not among the sources. It adds the
  tracking cost \<open>weight * \<parallel>J vd + Jdv - xdd_nom\<parallel>\<^sup>2\<close>; the cost is recorded with its arguments.
\<close>

definition AddJacobianTypeCost ::
  "mat \<Rightarrow> variable list \<Rightarrow> vec \<Rightarrow> vec \<Rightarrow> real \<Rightarrow> program \<Rightarrow> program" where
  "AddJacobianTypeCost J vd Jdv xdd_nom weight mp =
     mp\<lparr>costs := costs mp @ [JacobianTypeCost J vd Jdv xdd_nom weight]\<rparr>"

text \<open>
  Modelled from the spec: \<^verbatim>\<open>IDController.AddDynamicsConstraint\<close>, of the same missing file.
  It adds the equations of motion \<open>M vd + Cv + tau_g = S' tau + sum (J_c[j]' f_c[j])\<close>; the
  constraint is recorded with its arguments.
\<close>

definition AddDynamicsConstraint ::
  "mat \<Rightarrow> variable list \<Rightarrow> vec \<Rightarrow> vec \<Rightarrow> mat \<Rightarrow> variable list \<Rightarrow> mat list \<Rightarrow> variable list list
     \<Rightarrow> program \<Rightarrow> program" where
  "AddDynamicsConstraint M vd Cv tau_g S tau J_c f_c mp =
     mp\<lparr>constraints := constraints mp @ [DynamicsConstraint M vd Cv tau_g S tau J_c f_c]\<rparr>"

text \<open>
  Modelled from the spec: \<^verbatim>\<open>IDController.AddFrictionPyramidConstraint\<close>, of the same missing
  file. It adds, for each contact force, the facets of the friction pyramid; the constraint
  is recorded with the force variables.
\<close>

definition AddFrictionPyramidConstraint :: "variable list list \<Rightarrow> program \<Rightarrow> program" where
  "AddFrictionPyramidConstraint f_c mp =
     mp\<lparr>constraints := constraints mp @ [FrictionPyramidConstraint f_c]\<rparr>"

text \<open>
  Modelled from the spec: \<^verbatim>\<open>IDController.AddContactConstraint\<close>, of the same missing file.
  It adds, for each contact foot, the no-slip equality \<open>J_c[j] vd + Jdv_c[j] = 0\<close> (with
  damping); the constraint is recorded with its arguments.
\<close>

definition AddContactConstraint ::
  "mat list \<Rightarrow> variable list \<Rightarrow> vec list \<Rightarrow> vec \<Rightarrow> program \<Rightarrow> program" where
  "AddContactConstraint J_c vd Jdv_c v mp =
     mp\<lparr>constraints := constraints mp @ [ContactConstraint J_c vd Jdv_c v]\<rparr>"

text \<open>
  The decision variables of the tick (lines 185 to 190): a fresh program, then \<open>vd\<close>,
  \<open>tau\<close>, one force of three variables for each \<open>j\<close> in \<^verbatim>\<open>range(num_contact)\<close>, and \<open>delta\<close>.
\<close>

fun new_forces :: "nat \<Rightarrow> program \<Rightarrow> variable list list \<times> program" where
  "new_forces 0 mp = ([], mp)"
| "new_forces (Suc n) mp =
     (let (f, mp') = NewContinuousVariables 3 mp;
          (fs, mp'') = new_forces n mp'
      in (f # fs, mp''))"

record variables =
  var_vd :: "variable list"
  var_tau :: "variable list"
  var_f_c :: "variable list list"
  var_delta :: "variable list"

definition ControlLaw_variables :: "plant \<Rightarrow> nat \<Rightarrow> variables \<times> program" where
  "ControlLaw_variables pl num_contact =
     (let mp = MathematicalProgram;
          (vd, mp) = NewContinuousVariables (num_velocities pl) mp;
          (tau, mp) = NewContinuousVariables (num_actuators pl) mp;
          (f_c, mp) = new_forces num_contact mp;
          (delta, mp) = NewContinuousVariables 1 mp
      in (\<lparr>var_vd = vd, var_tau = tau, var_f_c = f_c, var_delta = delta\<rparr>, mp))"

text \<open>
  The costs and constraints of the tick (lines 192 to 212), in the order of the source.
  The slack sign \<^verbatim>\<open>delta[0] <= 0\<close> is the linear constraint \<open>-\<infinity> \<le> 1 * delta \<le> 0\<close>.
\<close>

definition ControlLaw_program ::
  "CLFController \<Rightarrow> plant \<Rightarrow> measured \<Rightarrow> task_space \<Rightarrow> vec
     \<Rightarrow> (variables \<times> CLFController) option" where
  "ControlLaw_program self pl m ts v = do {
     let (vars, mp) = ControlLaw_variables pl (ts_num_contact ts);
     let vd = var_vd vars;
     let tau = var_tau vars;
     let f_c = var_f_c vars;
     let delta = var_delta vars;
     let self = self\<lparr>self_mp := mp\<rparr>;
     let self = self\<lparr>self_mp :=
       AddJacobianTypeCost (ts_J ts) vd (ts_Jdv ts) (ts_xdd_nom ts) 1 (self_mp self)\<rparr>;
     self \<leftarrow> AddVdotCost self (ts_x_tilde ts) (ts_xd_tilde ts) (ts_J ts) vd 1;
     self \<leftarrow> AddVdotConstraint self (ts_x_tilde ts) (ts_xd_tilde ts) (ts_J ts) vd (ts_Jdv ts)
       (ts_xdd_nom ts) delta;
     mp \<leftarrow> AddLinearConstraint [[1]] [NegInf] [Fin 0] [hd delta] (self_mp self);
     let mp = AddDynamicsConstraint (m_M m) vd (m_Cv m) (m_tau_g m) (m_S m) tau (ts_J_c ts) f_c mp;
     let mp = (if list_ex id (ts_contact_feet ts)
               then AddContactConstraint (ts_J_c ts) vd (ts_Jdv_c ts) v
                      (AddFrictionPyramidConstraint f_c mp)
               else mp);
     Some (vars, self\<lparr>self_mp := mp\<rparr>)
   }"

text \<open>
  The logging after the solve (lines 219 to 223), at the solved \<open>vd\<close>: \<open>V\<close>, \<open>err\<close> and
  \<open>Vdot\<close>.
\<close>

definition ControlLaw_logging :: "CLFController \<Rightarrow> task_space \<Rightarrow> vec \<Rightarrow> CLFController option" where
  "ControlLaw_logging self ts vd = do {
     let x_tilde = ts_x_tilde ts;
     let xd_tilde = ts_xd_tilde ts;
     let eta = x_tilde @ xd_tilde;
     eP \<leftarrow> matmul_vm eta (self_P self);
     V \<leftarrow> matmul_vv eP eta;
     err \<leftarrow> matmul_vv x_tilde x_tilde;
     eP2 \<leftarrow> matmul_vm (smul 2 eta) (self_P self);
     ePF \<leftarrow> matmul_vm eP2 (self_F self);
     ePFe \<leftarrow> matmul_vv ePF eta;
     ePG \<leftarrow> matmul_vm eP2 (self_G self);
     Jvd \<leftarrow> matmul_mv (ts_J ts) vd;
     s \<leftarrow> add Jvd (ts_Jdv ts);
     nu \<leftarrow> sub s (ts_xdd_nom ts);
     ePGnu \<leftarrow> matmul_vv ePG nu;
     Some (self\<lparr>self_V := Some V, self_err := Some err, self_Vdot := Some (ePFe + ePGnu)\<rparr>)
   }"

text \<open>
  \<^verbatim>\<open>ControlLaw\<close>: the task-space quantities, the program, the solve, the assertion that the
  solve succeeded, the solved \<open>tau\<close> and \<open>vd\<close>, the logging; it returns \<open>tau\<close>. An exception
  ends the tick without a torque.
\<close>

definition ControlLaw ::
  "CLFController \<Rightarrow> plant \<Rightarrow> measured \<Rightarrow> trunk_data \<Rightarrow> vec \<Rightarrow> error + (vec \<times> CLFController)" where
  "ControlLaw self pl m td v =
     (case ControlLaw_task_space pl m td v of
        None \<Rightarrow> Inl ShapeError
      | Some ts \<Rightarrow>
     (case ControlLaw_program self pl m ts v of
        None \<Rightarrow> Inl ShapeError
      | Some (vars, self) \<Rightarrow>
     (let result = Solve pl (self_mp self)
      in if \<not> is_success result then Inl AssertionError
         else
           let tau = map (GetSolution result) (var_tau vars);
               vd = map (GetSolution result) (var_vd vars)
           in (case ControlLaw_logging self ts vd of
                 None \<Rightarrow> Inl ShapeError
               | Some self \<Rightarrow> Inr (tau, self)))))"

text \<open>The entries of a list whose flag is set, in order: what boolean indexing selects.\<close>

definition sel :: "bool list \<Rightarrow> 'a list \<Rightarrow> 'a list" where
  "sel bs xs = map fst (filter snd (zip xs bs))"

section \<open>The Lyapunov function as the specification writes it\<close>

text \<open>
  The specification's formulas, for comparison with what the source computes:
  the product \<open>v' A\<close> of a row vector and a matrix, \<open>V = eta' P eta\<close>,
  \<open>Vdot = 2 eta' P (F eta + G nu)\<close>, the task-space acceleration error
  \<open>nu = J vd + Jdv - xdd_nom\<close>, and the Euclidean norm.
\<close>

definition vm :: "vec \<Rightarrow> mat \<Rightarrow> vec" where
  "vm v A = lincomb (ncols A) v A"

definition V_spec :: "mat \<Rightarrow> vec \<Rightarrow> real" where
  "V_spec P eta = dot eta (mv P eta)"

definition Vdot_spec :: "mat \<Rightarrow> mat \<Rightarrow> mat \<Rightarrow> vec \<Rightarrow> vec \<Rightarrow> real" where
  "Vdot_spec P F G eta nu = 2 * dot eta (mv P (vadd (mv F eta) (mv G nu)))"

definition nu_spec :: "mat \<Rightarrow> vec \<Rightarrow> vec \<Rightarrow> vec \<Rightarrow> vec option" where
  "nu_spec J w Jdv xdd_nom = do {
     Jw \<leftarrow> matmul_mv J w;
     s \<leftarrow> add Jw Jdv;
     sub s xdd_nom
   }"

definition norm_spec :: "vec \<Rightarrow> real" where
  "norm_spec x = sqrt (dot x x)"


section \<open>The certificate as the specification writes it\<close>

text \<open>
  Transpose, product, sum and difference of 2-D arrays, symmetry, positive definiteness
  and eigenvalues, on matrices whose shapes fit.
\<close>

definition transpose_m :: "mat \<Rightarrow> mat" where
  "transpose_m A = map (\<lambda>j. map (\<lambda>r. r ! j) A) [0..<ncols A]"

definition mm :: "mat \<Rightarrow> mat \<Rightarrow> mat" where
  "mm A B = map (\<lambda>r. vm r B) A"

definition madd :: "mat \<Rightarrow> mat \<Rightarrow> mat" where
  "madd A B = map2 vadd A B"

definition msub :: "mat \<Rightarrow> mat \<Rightarrow> mat" where
  "msub A B = map2 (map2 (-)) A B"

definition symmetric :: "mat \<Rightarrow> bool" where
  "symmetric A \<longleftrightarrow> rect A \<and> transpose_m A = A"

definition positive_definite :: "mat \<Rightarrow> bool" where
  "positive_definite A \<longleftrightarrow>
     (\<forall>x. length x = length A \<and> x \<noteq> replicate (length A) 0 \<longrightarrow> 0 < dot x (mv A x))"

definition is_eigenvalue :: "mat \<Rightarrow> real \<Rightarrow> bool" where
  "is_eigenvalue A lam \<longleftrightarrow>
     (\<exists>x. length x = length A \<and> x \<noteq> replicate (length A) 0 \<and> mv A x = smul lam x)"

text \<open>
  Modelled from the spec: the Riccati solver (Drake's \<^verbatim>\<open>ContinuousAlgebraicRiccatiEquation\<close>,
  called by the constructor), which is not among the sources. Given \<open>(F, G, Q, R)\<close> it
  returns the symmetric positive-definite solution \<open>P\<close> of
  \<open>F' P + P F - P G R\<^sup>-\<^sup>1 G' P + Q = 0\<close>. The predicate says that \<open>P\<close> is such a solution,
  with \<open>Ri\<close> an inverse of \<open>R\<close>; that it is the stabilizing one is not expressed.
\<close>

definition riccati_solution :: "mat \<Rightarrow> mat \<Rightarrow> mat \<Rightarrow> mat \<Rightarrow> mat \<Rightarrow> bool" where
  "riccati_solution F G Q R P \<longleftrightarrow>
     symmetric P \<and> positive_definite P \<and> length P = length F \<and>
     (\<exists>Ri. mm R Ri = eye (length R) \<and>
        madd (msub (madd (mm (transpose_m F) P) (mm P F))
                (mm (mm (mm (mm P G) Ri) (transpose_m G)) P)) Q
          = zeros (length F) (length F))"

text \<open>
  The eigenvalue routine (numpy's \<^verbatim>\<open>eigvals\<close>) on a matrix: it returns eigenvalues of the
  matrix, at least one.
\<close>

definition returns_eigenvalues :: "(mat \<Rightarrow> real list) \<Rightarrow> mat \<Rightarrow> bool" where
  "returns_eigenvalues eigvals A \<longleftrightarrow>
     eigvals A \<noteq> [] \<and> (\<forall>lam\<in>set (eigvals A). is_eigenvalue A lam)"

text \<open>The 12 by 12 matrix of the four 6 by 6 blocks \<open>a I\<close>, \<open>b I\<close>, \<open>b I\<close>, \<open>c I\<close>.\<close>

definition blk :: "real \<Rightarrow> real \<Rightarrow> real \<Rightarrow> mat" where
  "blk a b c = block_row (map (smul a) (eye 6)) (map (smul b) (eye 6))
             @ block_row (map (smul b) (eye 6)) (map (smul c) (eye 6))"

section \<open>A concrete tick\<close>

text \<open>
  A small plant with two velocities and one actuator, standing on four feet, its body
  two units off the setpoint along \<open>x\<close>. The certificate is a rational matrix of the block
  form of the Riccati solution. The conversions between angular velocity and angle rates
  are those of zero roll, pitch and yaw (the identity on 3-vectors). The solver answers
  with \<open>vd = (-10, 0)\<close>, \<open>tau = -10\<close>, and zero contact forces and slack: the first
  velocity is driven by the actuator, the second is held by the feet.
\<close>

definition ex_P :: mat where
  "ex_P = block_row (map (smul 110) (eye 6)) (map (smul 10) (eye 6))
        @ block_row (map (smul 10) (eye 6)) (map (smul 11) (eye 6))"

definition ex_self :: CLFController where
  "ex_self = \<lparr>self_F = CLF_F, self_G = CLF_G, self_P = ex_P, self_gamma = 9 / 10,
     self_mp = MathematicalProgram, self_V = None, self_err = None, self_Vdot = None\<rparr>"

definition ex_conv :: "vec \<Rightarrow> vec \<Rightarrow> vec option" where
  "ex_conv rpy w = (if length rpy = 3 \<and> length w = 3 then Some w else None)"

definition ex_result :: result where
  "ex_result = \<lparr>is_success = True,
     GetSolution = (\<lambda>i. if i = 0 then - 10 else if i = 2 then - 10 else 0)\<rparr>"

definition ex_plant :: plant where
  "ex_plant = \<lparr>num_velocities = 2, num_actuators = 1,
     CalcRpyDtFromAngularVelocityInParent = ex_conv,
     CalcAngularVelocityInParentFromRpyDt = ex_conv,
     Solve = (\<lambda>mp. ex_result)\<rparr>"

definition ex_J_body :: mat where
  "ex_J_body = [[0, 1], [0, 0], [0, 0], [1, 0], [0, 0], [0, 0]]"

definition ex_J_foot :: mat where
  "ex_J_foot = [[0, 1], [0, 0], [0, 0]]"

definition ex_m :: measured where
  "ex_m = \<lparr>m_M = [[1, 0], [0, 1]], m_Cv = [0, 0], m_tau_g = [0, 0], m_S = [[1, 0]],
     m_p_body = [2, 0, 0], m_rpy_body = [0, 0, 0],
     m_J_body = ex_J_body, m_Jdv_body = [0, 0, 0, 0, 0, 0],
     m_lf = ([1, 1, 0], ex_J_foot, [0, 0, 0]),
     m_rf = ([1, - 1, 0], ex_J_foot, [0, 0, 0]),
     m_lh = ([- 1, 1, 0], ex_J_foot, [0, 0, 0]),
     m_rh = ([- 1, - 1, 0], ex_J_foot, [0, 0, 0])\<rparr>"

definition ex_td :: trunk_data where
  "ex_td = \<lparr>td_contact_states = [True, True, True, True],
     td_p_body = [0, 0, 0], td_pd_body = [0, 0, 0], td_pdd_body = [0, 0, 0],
     td_rpy_body = [0, 0, 0], td_rpyd_body = [0, 0, 0], td_rpydd_body = [0, 0, 0],
     td_p_lf = [1, 1, 0], td_p_rf = [1, - 1, 0], td_p_lh = [- 1, 1, 0], td_p_rh = [- 1, - 1, 0],
     td_pd_lf = [0, 0, 0], td_pd_rf = [0, 0, 0], td_pd_lh = [0, 0, 0], td_pd_rh = [0, 0, 0],
     td_pdd_lf = [0, 0, 0], td_pdd_rf = [0, 0, 0], td_pdd_lh = [0, 0, 0],
     td_pdd_rh = [0, 0, 0]\<rparr>"

definition ex_v :: vec where
  "ex_v = [0, 0]"

definition ex_ts :: task_space where
  "ex_ts = \<lparr>ts_contact_feet = [True, True, True, True],
     ts_swing_feet = [False, False, False, False],
     ts_num_contact = 4, ts_num_swing = 0,
     ts_J_c = [ex_J_foot, ex_J_foot, ex_J_foot, ex_J_foot],
     ts_Jdv_c = [[0, 0, 0], [0, 0, 0], [0, 0, 0], [0, 0, 0]],
     ts_J = ex_J_body, ts_Jdv = [0, 0, 0, 0, 0, 0],
     ts_x = [0, 0, 0, 2, 0, 0], ts_xd = [0, 0, 0, 0, 0, 0],
     ts_x_nom = [0, 0, 0, 0, 0, 0], ts_xd_nom = [0, 0, 0, 0, 0, 0],
     ts_xdd_nom = [0, 0, 0, 0, 0, 0],
     ts_x_tilde = [0, 0, 0, 2, 0, 0], ts_xd_tilde = [0, 0, 0, 0, 0, 0]\<rparr>"

text \<open>The variables and the program of this tick, and the controller after it.\<close>

definition ex_vars :: variables where
  "ex_vars = \<lparr>var_vd = [0, 1], var_tau = [2],
     var_f_c = [[3, 4, 5], [6, 7, 8], [9, 10, 11], [12, 13, 14]], var_delta = [15]\<rparr>"

definition ex_mp :: program where
  "ex_mp = \<lparr>decision_variables = [0, 1, 2, 3, 4, 5, 6, 7, 8, 9, 10, 11, 12, 13, 14, 15],
     costs = [JacobianTypeCost ex_J_body [0, 1] [0, 0, 0, 0, 0, 0] [0, 0, 0, 0, 0, 0] 1,
              LinearCost [40, 0] 0 [0, 1]],
     constraints =
       [LinearConstraint [[40, 0, - 1]] [NegInf] [Fin (- 396)] [0, 1, 15],
        LinearConstraint [[1]] [NegInf] [Fin 0] [15],
        DynamicsConstraint [[1, 0], [0, 1]] [0, 1] [0, 0] [0, 0] [[1, 0]] [2]
          [ex_J_foot, ex_J_foot, ex_J_foot, ex_J_foot]
          [[3, 4, 5], [6, 7, 8], [9, 10, 11], [12, 13, 14]],
        FrictionPyramidConstraint [[3, 4, 5], [6, 7, 8], [9, 10, 11], [12, 13, 14]],
        ContactConstraint [ex_J_foot, ex_J_foot, ex_J_foot, ex_J_foot] [0, 1]
          [[0, 0, 0], [0, 0, 0], [0, 0, 0], [0, 0, 0]] [0, 0]]\<rparr>"

definition ex_final :: CLFController where
  "ex_final = ex_self\<lparr>self_mp := ex_mp, self_V := Some 440, self_err := Some 4,
     self_Vdot := Some (- 400)\<rparr>"




text \<open>The same plant with a solver that reports failure.\<close>

definition ex_plant_fail :: plant where
  "ex_plant_fail = ex_plant\<lparr>Solve := (\<lambda>mp. \<lparr>is_success = False, GetSolution = (\<lambda>i. 0)\<rparr>)\<rparr>"

text \<open>The same tick with the right front foot swinging, half a unit below its setpoint.\<close>

definition ex_td_swing :: trunk_data where
  "ex_td_swing = ex_td\<lparr>td_contact_states := [True, False, True, True],
     td_p_rf := [1, - 1, 1 / 2]\<rparr>"

definition ex_ts_swing :: task_space where
  "ex_ts_swing = \<lparr>ts_contact_feet = [True, False, True, True],
     ts_swing_feet = [False, True, False, False],
     ts_num_contact = 3, ts_num_swing = 1,
     ts_J_c = [ex_J_foot, ex_J_foot, ex_J_foot],
     ts_Jdv_c = [[0, 0, 0], [0, 0, 0], [0, 0, 0]],
     ts_J = ex_J_body @ ex_J_foot, ts_Jdv = [0, 0, 0, 0, 0, 0, 0, 0, 0],
     ts_x = [0, 0, 0, 2, 0, 0, 1, - 1, 0], ts_xd = [0, 0, 0, 0, 0, 0, 0, 0, 0],
     ts_x_nom = [0, 0, 0, 0, 0, 0, 1, - 1, 1 / 2], ts_xd_nom = [0, 0, 0, 0, 0, 0, 0, 0, 0],
     ts_xdd_nom = [0, 0, 0, 0, 0, 0, 0, 0, 0],
     ts_x_tilde = [0, 0, 0, 2, 0, 0, 0, 0, - (1 / 2)],
     ts_xd_tilde = [0, 0, 0, 0, 0, 0, 0, 0, 0]\<rparr>"

definition ex_vars_swing :: variables where
  "ex_vars_swing = \<lparr>var_vd = [0, 1], var_tau = [2],
     var_f_c = [[3, 4, 5], [6, 7, 8], [9, 10, 11]], var_delta = [12]\<rparr>"

definition ex_mp_swing :: program where
  "ex_mp_swing = \<lparr>decision_variables = [0, 1, 2, 3, 4, 5, 6, 7, 8, 9, 10, 11, 12],
     costs = [], constraints = []\<rparr>"

text \<open>The same tick with no foot in contact.\<close>

definition ex_td_flight :: trunk_data where
  "ex_td_flight = ex_td\<lparr>td_contact_states := [False, False, False, False]\<rparr>"

text \<open>
  A tick on four feet in which the body turns about \<open>x\<close> at the rate the setpoint asks
  for, while its roll is half a unit off the setpoint.
\<close>

definition ex_td_rates :: trunk_data where
  "ex_td_rates = ex_td\<lparr>td_rpy_body := [1 / 2, 0, 0], td_rpyd_body := [1, 0, 0]\<rparr>"

definition ex_v_rates :: vec where
  "ex_v_rates = [0, 1]"

definition ex_ts_rates :: task_space where
  "ex_ts_rates = ex_ts\<lparr>ts_x_nom := [1 / 2, 0, 0, 0, 0, 0], ts_xd := [1, 0, 0, 0, 0, 0],
     ts_xd_nom := [1, 0, 0, 0, 0, 0], ts_x_tilde := [- (1 / 2), 0, 0, 2, 0, 0]\<rparr>"

text \<open>
  The solution of the Riccati equation at the constructor's arguments, in closed form,
  a solver that returns it, and an eigenvalue routine that returns the larger eigenvalue
  of a matrix of this block form.
\<close>

definition ex_care_P :: mat where
  "ex_care_P = blk (20 * sqrt 30) 10 (2 * sqrt 30)"

definition ex_care :: "mat \<Rightarrow> mat \<Rightarrow> mat \<Rightarrow> mat \<Rightarrow> mat" where
  "ex_care F G Q R = ex_care_P"

definition ex_eigvals :: "mat \<Rightarrow> real list" where
  "ex_eigvals A =
     [(A ! 0 ! 0 + A ! 6 ! 6 + sqrt ((A ! 0 ! 0 - A ! 6 ! 6)\<^sup>2 + 4 * (A ! 0 ! 6)\<^sup>2)) / 2]"

section \<open>Linear algebra on lists\<close>


lemma rect_rows: "rect A \<Longrightarrow> r \<in> set A \<Longrightarrow> length r = ncols A"
  by (simp add: rect_def list_all_iff)

lemma length_lincomb: "(\<And>r. r \<in> set A \<Longrightarrow> length r = c) \<Longrightarrow> length (lincomb c v A) = c"
  by (induction c v A rule: lincomb.induct) (simp_all add: vadd_def smul_def)

lemma length_vm: "rect A \<Longrightarrow> length (vm v A) = ncols A"
  unfolding vm_def by (rule length_lincomb) (rule rect_rows)

lemma dot_Nil [simp]: "dot [] x = 0" "dot x [] = 0"
  by (simp_all add: dot_def)

lemma dot_Cons [simp]: "dot (a # u) (b # v) = a * b + dot u v"
  by (simp add: dot_def)

lemma dot_replicate_0 [simp]: "dot (replicate c 0) x = 0"
  by (induction c arbitrary: x) (case_tac x; simp)+

lemma dot_smul: "dot (smul k r) x = k * dot r x"
  by (induction r arbitrary: x) (case_tac x; simp add: smul_def algebra_simps)+

lemma dot_vadd: "length a = length b \<Longrightarrow> dot (vadd a b) x = dot a x + dot b x"
proof (induction a b arbitrary: x rule: list_induct2)
  case Nil
  then show ?case by (simp add: vadd_def)
next
  case (Cons a as b bs)
  then show ?case by (cases x) (simp_all add: vadd_def algebra_simps)
qed

lemma dot_vadd_right: "length a = length b \<Longrightarrow> dot x (vadd a b) = dot x a + dot x b"
proof (induction a b arbitrary: x rule: list_induct2)
  case Nil
  then show ?case by (simp add: vadd_def)
next
  case (Cons a as b bs)
  then show ?case by (cases x) (simp_all add: vadd_def algebra_simps)
qed

lemma dot_lincomb:
  "(\<And>r. r \<in> set A \<Longrightarrow> length r = c) \<Longrightarrow> dot (lincomb c v A) x = dot v (mv A x)"
proof (induction c v A rule: lincomb.induct)
  case (1 c x' xs r rs)
  have "length (smul x' r) = length (lincomb c xs rs)"
    using 1(2) by (simp add: smul_def length_lincomb)
  then show ?case using 1 by (simp add: dot_vadd dot_smul mv_def)
qed (simp_all add: mv_def)

lemma dot_vm: "rect A \<Longrightarrow> dot (vm v A) x = dot v (mv A x)"
  unfolding vm_def by (rule dot_lincomb) (rule rect_rows)

lemma lincomb_smul: "lincomb c (smul k v) A = smul k (lincomb c v A)"
  by (induction c v A rule: lincomb.induct)
     (simp_all add: smul_def vadd_def zip_map1 zip_map2 algebra_simps split_def)

lemma vm_smul: "vm (smul k v) A = smul k (vm v A)"
  by (simp add: vm_def lincomb_smul)

lemma dot_append: "length a = length x \<Longrightarrow> dot (a @ b) (x @ y) = dot a x + dot b y"
  by (induction a x rule: list_induct2) simp_all

lemma vadd_Cons: "vadd (a # u) (b # v) = (a + b) # vadd u v" "vadd [] v = []"
  by (simp_all add: vadd_def)

lemma mv_vadd: "length a = length b \<Longrightarrow> mv A (vadd a b) = vadd (mv A a) (mv A b)"
  by (induction A) (simp_all add: mv_def dot_vadd_right vadd_Cons)

lemma length_mv [simp]: "length (mv A x) = length A"
  by (simp add: mv_def)

lemma matmul_vm_SomeD:
  "matmul_vm v A = Some y \<Longrightarrow> rect A \<and> length v = length A \<and> y = vm v A \<and> length y = ncols A"
  by (auto simp: matmul_vm_def vm_def length_vm[unfolded vm_def] split: if_splits)

lemma matmul_vv_SomeD: "matmul_vv u v = Some y \<Longrightarrow> length u = length v \<and> y = dot u v"
  by (auto simp: matmul_vv_def split: if_splits)

lemma sub_SomeD:
  "sub a b = Some d \<Longrightarrow> length d = m \<Longrightarrow> length jw = m \<Longrightarrow>
     \<exists>s. add jw a = Some s \<and> sub s b = Some (vadd jw d)"
  unfolding add_def sub_def broadcast2_def vadd_def
  by (auto split: if_splits intro!: nth_equalityI simp: algebra_simps)

lemma Vdot_spec_split:
  "length G = length F \<Longrightarrow>
   Vdot_spec P F G eta nu = 2 * dot eta (mv P (mv F eta)) + 2 * dot eta (mv P (mv G nu))"
  by (simp add: Vdot_spec_def mv_vadd dot_vadd_right)

lemma CLF_shapes: "rect CLF_F" "rect CLF_G" "length CLF_F = 12" "length CLF_G = 12"
  "ncols CLF_F = 12" "ncols CLF_G = 6"
  by code_simp+

lemma AddLinearConstraint_SomeD:
  "AddLinearConstraint A lb ub vars mp = Some mp' \<Longrightarrow>
     rect A \<and> ncols A = length vars \<and> length lb = length A \<and> length ub = length A \<and>
     mp' = mp\<lparr>constraints := constraints mp @ [LinearConstraint A lb ub vars]\<rparr>"
  by (auto simp: AddLinearConstraint_def split: if_splits)

lemma linear_holds_row:
  "linear_holds sol [a] [NegInf] [Fin ub] vars \<longleftrightarrow> dot a (map sol vars) \<le> ub"
  by (simp add: linear_holds_def row_holds_def)

text \<open>What a successful call of \<^verbatim>\<open>AddVdotConstraint\<close> has checked and added.\<close>

lemma AddVdotConstraint_SomeD:
  assumes "AddVdotConstraint self x_tilde xd_tilde J vd Jdv xdd_nom delta = Some self'"
  defines "eta \<equiv> x_tilde @ xd_tilde"
  defines "P \<equiv> self_P self" and "F \<equiv> self_F self" and "G \<equiv> self_G self"
  shows "\<exists>d. sub Jdv xdd_nom = Some d \<and> length d = ncols G
     \<and> rect P \<and> rect F \<and> rect G \<and> rect J
     \<and> length eta = length P \<and> ncols P = length eta \<and> ncols P = length F \<and> ncols P = length G
     \<and> ncols F = length eta \<and> ncols G = length J \<and> Suc (ncols J) = length (vd @ delta)
     \<and> self' = self\<lparr>self_mp := (self_mp self)\<lparr>constraints := constraints (self_mp self) @
         [LinearConstraint [vm (vm (vm (smul 2 eta) P) G) J @ [- 1]] [NegInf]
           [Fin (- self_gamma self * dot (vm eta P) eta - dot (vm (vm (smul 2 eta) P) F) eta
                 - dot (vm (vm (smul 2 eta) P) G) d)] (vd @ delta)]\<rparr>\<rparr>"
proof -
  from assms(1) obtain eP V eP2 ePG ePGJ ePF ePFe d ePGd mp' where
    s: "matmul_vm eta P = Some eP" "matmul_vv eP eta = Some V"
       "matmul_vm (smul 2 eta) P = Some eP2" "matmul_vm eP2 G = Some ePG"
       "matmul_vm ePG J = Some ePGJ" "matmul_vm eP2 F = Some ePF"
       "matmul_vv ePF eta = Some ePFe" "sub Jdv xdd_nom = Some d"
       "matmul_vv ePG d = Some ePGd"
       "AddLinearConstraint [ePGJ @ [- 1]] [NegInf] [Fin (- self_gamma self * V - ePFe - ePGd)]
          (vd @ delta) (self_mp self) = Some mp'"
       "self' = self\<lparr>self_mp := mp'\<rparr>"
    unfolding AddVdotConstraint_def eta_def P_def F_def G_def Let_def
    by (auto simp: bind_eq_Some_conv)
  note a = s(1,3,4,5,6)[THEN matmul_vm_SomeD] s(2,7,9)[THEN matmul_vv_SomeD]
    s(10)[THEN AddLinearConstraint_SomeD]
  show ?thesis
    using a s(8,11) by (auto simp: ncols_def)
qed

lemma smul_append: "smul k (a @ b) = smul k a @ smul k b"
  by (simp add: smul_def)

lemma length_smul [simp]: "length (smul k v) = length v"
  by (simp add: smul_def)

lemma matmul_mv_Some: "rect A \<Longrightarrow> ncols A = length x \<Longrightarrow> matmul_mv A x = Some (mv A x)"
  by (simp add: matmul_mv_def)

lemma nu_spec_Some:
  assumes "sub Jdv xdd_nom = Some d" "length d = length J" "rect J" "ncols J = length w"
  shows "nu_spec J w Jdv xdd_nom = Some (vadd (mv J w) d)"
proof -
  from sub_SomeD[OF assms(1,2), of "mv J w"] obtain s where
    "add (mv J w) Jdv = Some s" "sub s xdd_nom = Some (vadd (mv J w) d)"
    by auto
  then show ?thesis
    by (simp add: nu_spec_def matmul_mv_Some assms)
qed

lemma Vdot_spec_affine:
  assumes "length G = length F" "length d = length J"
  shows "Vdot_spec P F G eta (vadd (mv J w) d) =
     2 * dot eta (mv P (mv F eta)) + 2 * dot eta (mv P (mv G (mv J w)))
       + 2 * dot eta (mv P (mv G d))"
  using assms by (simp add: Vdot_spec_split mv_vadd dot_vadd_right)

text \<open>
  C1: the constraint that \<^verbatim>\<open>AddVdotConstraint\<close> adds is one row over the variables \<open>vd\<close>
  followed by \<open>delta\<close>, with coefficient \<open>2 eta' P G J\<close> on \<open>vd\<close> and \<open>-1\<close> on \<open>delta\<close>, no
  lower bound, and the upper bound \<open>- gamma V - 2 eta' P F eta - 2 eta' P G (Jdv - xdd_nom)\<close>.
  Under every assignment of values to the variables the row holds exactly when
  \<open>Vdot \<le> - gamma V + delta\<close>, where \<open>Vdot = 2 eta' P (F eta + G nu)\<close> and
  \<open>nu = J vd + Jdv - xdd_nom\<close>.
\<close>

theorem AddVdotConstraint_linearizes_CLF:
  assumes "AddVdotConstraint self x_tilde xd_tilde J vd Jdv xdd_nom [delta] = Some self'"
  shows "\<exists>a ub d.
     constraints (self_mp self') = constraints (self_mp self) @
       [LinearConstraint [a @ [- 1]] [NegInf] [Fin ub] (vd @ [delta])]
     \<and> length a = length vd
     \<and> a = smul 2 (vm (vm (vm (x_tilde @ xd_tilde) (self_P self)) (self_G self)) J)
     \<and> sub Jdv xdd_nom = Some d
     \<and> ub = - self_gamma self * V_spec (self_P self) (x_tilde @ xd_tilde)
            - 2 * dot (vm (vm (x_tilde @ xd_tilde) (self_P self)) (self_F self))
                (x_tilde @ xd_tilde)
            - 2 * dot (vm (vm (x_tilde @ xd_tilde) (self_P self)) (self_G self)) d
     \<and> (\<forall>sol. \<exists>nu. nu_spec J (map sol vd) Jdv xdd_nom = Some nu \<and>
          (linear_holds sol [a @ [- 1]] [NegInf] [Fin ub] (vd @ [delta]) \<longleftrightarrow>
           Vdot_spec (self_P self) (self_F self) (self_G self) (x_tilde @ xd_tilde) nu
             \<le> - self_gamma self * V_spec (self_P self) (x_tilde @ xd_tilde) + sol delta))"
proof -
  define eta where "eta = x_tilde @ xd_tilde"
  define P where "P = self_P self"
  define F where "F = self_F self"
  define G where "G = self_G self"
  from AddVdotConstraint_SomeD[OF assms] obtain d where
    d: "sub Jdv xdd_nom = Some d" "length d = ncols G"
    and r: "rect P" "rect F" "rect G" "rect J"
    and l: "length eta = length P" "ncols P = length eta" "ncols P = length F"
      "ncols P = length G" "ncols F = length eta" "ncols G = length J" "ncols J = length vd"
    and self': "self' = self\<lparr>self_mp := (self_mp self)\<lparr>constraints := constraints (self_mp self) @
         [LinearConstraint [vm (vm (vm (smul 2 eta) P) G) J @ [- 1]] [NegInf]
           [Fin (- self_gamma self * dot (vm eta P) eta - dot (vm (vm (smul 2 eta) P) F) eta
                 - dot (vm (vm (smul 2 eta) P) G) d)] (vd @ [delta])]\<rparr>\<rparr>"
    unfolding eta_def P_def F_def G_def by auto
  let ?a = "smul 2 (vm (vm (vm eta P) G) J)"
  let ?ub = "- self_gamma self * V_spec P eta - 2 * dot (vm (vm eta P) F) eta
     - 2 * dot (vm (vm eta P) G) d"
  have a: "vm (vm (vm (smul 2 eta) P) G) J = ?a"
    by (simp add: vm_smul)
  have ub: "- self_gamma self * dot (vm eta P) eta - dot (vm (vm (smul 2 eta) P) F) eta
                 - dot (vm (vm (smul 2 eta) P) G) d = ?ub"
    by (simp add: vm_smul dot_smul dot_vm r V_spec_def)
  have len: "length ?a = length vd"
    by (simp add: length_vm r l)
  have eq: "\<exists>nu. nu_spec J (map sol vd) Jdv xdd_nom = Some nu \<and>
          (linear_holds sol [?a @ [- 1]] [NegInf] [Fin ?ub] (vd @ [delta]) \<longleftrightarrow>
           Vdot_spec P F G eta nu \<le> - self_gamma self * V_spec P eta + sol delta)" for sol
  proof -
    let ?w = "map sol vd"
    have nu: "nu_spec J ?w Jdv xdd_nom = Some (vadd (mv J ?w) d)"
      using d l r by (intro nu_spec_Some) simp_all
    have "dot (?a @ [- 1]) (map sol (vd @ [delta])) = dot ?a ?w - sol delta"
      using len by (simp add: dot_append)
    also have "dot ?a ?w = 2 * dot eta (mv P (mv G (mv J ?w)))"
      by (simp add: dot_smul dot_vm r)
    finally have lhs: "dot (?a @ [- 1]) (map sol (vd @ [delta]))
       = 2 * dot eta (mv P (mv G (mv J ?w))) - sol delta" .
    have rhs: "?ub = - self_gamma self * V_spec P eta - 2 * dot eta (mv P (mv F eta))
       - 2 * dot eta (mv P (mv G d))"
      by (simp add: dot_vm r)
    have "Vdot_spec P F G eta (vadd (mv J ?w) d) =
       2 * dot eta (mv P (mv F eta)) + 2 * dot eta (mv P (mv G (mv J ?w)))
       + 2 * dot eta (mv P (mv G d))"
      using d l by (intro Vdot_spec_affine) simp_all
    then show ?thesis
      unfolding linear_holds_row lhs rhs using nu by auto
  qed
  show ?thesis
    apply (rule exI[of _ ?a], rule exI[of _ ?ub], rule exI[of _ d])
    using self' a ub len d(1) eq
    unfolding eta_def P_def F_def G_def by simp
qed


theorem AddVdotConstraint_linearizes_CLF_witness:
  "\<exists>self'. AddVdotConstraint ex_self [0, 0, 0, 2, 0, 0] [0, 0, 0, 0, 0, 0] ex_J_body [0, 1]
        [0, 0, 0, 0, 0, 0] [0, 0, 0, 0, 0, 0] [15] = Some self'
     \<and> constraints (self_mp self') =
         [LinearConstraint [[40, 0, - 1]] [NegInf] [Fin (- 396)] [0, 1, 15]]
     \<and> (\<forall>sol. \<exists>nu. nu_spec ex_J_body (map sol [0, 1]) [0, 0, 0, 0, 0, 0] [0, 0, 0, 0, 0, 0]
            = Some nu \<and>
          (linear_holds sol [[40, 0, - 1]] [NegInf] [Fin (- 396)] [0, 1, 15] \<longleftrightarrow>
           Vdot_spec ex_P CLF_F CLF_G [0, 0, 0, 2, 0, 0, 0, 0, 0, 0, 0, 0] nu
             \<le> - (9 / 10) * V_spec ex_P [0, 0, 0, 2, 0, 0, 0, 0, 0, 0, 0, 0] + sol 15))"
proof -
  let ?self' = "ex_self\<lparr>self_mp := MathematicalProgram\<lparr>constraints :=
     [LinearConstraint [[40, 0, - 1]] [NegInf] [Fin (- 396)] [0, 1, 15]]\<rparr>\<rparr>"
  have ok: "AddVdotConstraint ex_self [0, 0, 0, 2, 0, 0] [0, 0, 0, 0, 0, 0] ex_J_body [0, 1]
        [0, 0, 0, 0, 0, 0] [0, 0, 0, 0, 0, 0] [15] = Some ?self'"
    by code_simp
  from AddVdotConstraint_linearizes_CLF[OF ok] obtain a ub where
    c: "constraints (self_mp ?self') = constraints (self_mp ex_self) @
       [LinearConstraint [a @ [- 1]] [NegInf] [Fin ub] ([0, 1] @ [15])]"
    and e: "\<forall>sol. \<exists>nu. nu_spec ex_J_body (map sol [0, 1]) [0, 0, 0, 0, 0, 0] [0, 0, 0, 0, 0, 0]
            = Some nu \<and>
          (linear_holds sol [a @ [- 1]] [NegInf] [Fin ub] ([0, 1] @ [15]) \<longleftrightarrow>
           Vdot_spec (self_P ex_self) (self_F ex_self) (self_G ex_self)
             ([0, 0, 0, 2, 0, 0] @ [0, 0, 0, 0, 0, 0]) nu
             \<le> - self_gamma ex_self * V_spec (self_P ex_self)
                 ([0, 0, 0, 2, 0, 0] @ [0, 0, 0, 0, 0, 0]) + sol 15)"
    by blast
  from c have "a @ [- 1] = [40, 0, - 1]" "ub = - 396"
    by (simp_all add: ex_self_def MathematicalProgram_def)
  with e ok show ?thesis
    by (simp add: ex_self_def MathematicalProgram_def)
qed

lemma lincomb_zero:
  "(\<And>r. r \<in> set A \<Longrightarrow> length r = c) \<Longrightarrow> lincomb c (replicate k 0) A = replicate c 0"
proof (induction A arbitrary: k)
  case Nil
  then show ?case by (cases k) simp_all
next
  case (Cons r A)
  show ?case
  proof (cases k)
    case 0
    then show ?thesis by simp
  next
    case (Suc k')
    have "vadd (smul 0 r) (replicate c 0) = replicate c 0"
      using Cons.prems[of r] by (auto simp: vadd_def smul_def intro!: nth_equalityI)
    with Cons Suc show ?thesis by simp
  qed
qed

lemma vm_zero: "rect A \<Longrightarrow> vm (replicate k 0) A = replicate (ncols A) 0"
  unfolding vm_def by (rule lincomb_zero) (rule rect_rows)

lemma smul_zero [simp]: "smul k (replicate n 0) = replicate n 0"
  by (simp add: smul_def)

text \<open>
  C5: when the error \<open>eta\<close> is zero, \<open>V = 0\<close>, the coefficients of the row on \<open>vd\<close> vanish
  and its bound is \<open>0\<close>, so the row says \<open>0 \<le> delta\<close>; together with the slack sign
  \<open>delta \<le> 0\<close> it holds exactly for \<open>delta = 0\<close>.
\<close>

theorem zero_error_CLF_row:
  assumes "AddVdotConstraint self (replicate n 0) (replicate n' 0) J vd Jdv xdd_nom [delta]
     = Some self'"
  shows "V_spec (self_P self) (replicate n 0 @ replicate n' 0) = 0
   \<and> constraints (self_mp self') = constraints (self_mp self) @
       [LinearConstraint [replicate (length vd) 0 @ [- 1]] [NegInf] [Fin 0] (vd @ [delta])]
   \<and> (\<forall>sol. linear_holds sol [replicate (length vd) 0 @ [- 1]] [NegInf] [Fin 0] (vd @ [delta])
        \<longleftrightarrow> 0 \<le> sol delta)
   \<and> (\<forall>sol. linear_holds sol [replicate (length vd) 0 @ [- 1]] [NegInf] [Fin 0] (vd @ [delta])
          \<and> linear_holds sol [[1]] [NegInf] [Fin 0] [delta]
        \<longleftrightarrow> sol delta = 0)"
proof -
  let ?eta = "replicate (n + n') (0::real)"
  have eta: "replicate n 0 @ replicate n' 0 = ?eta"
    by (simp add: replicate_add)
  from AddVdotConstraint_SomeD[OF assms] obtain d where
    r: "rect (self_P self)" "rect (self_F self)" "rect (self_G self)" "rect J"
    and l: "ncols J = length vd"
    and self': "self' = self\<lparr>self_mp := (self_mp self)\<lparr>constraints := constraints (self_mp self) @
         [LinearConstraint [vm (vm (vm (smul 2 ?eta) (self_P self)) (self_G self)) J @ [- 1]]
           [NegInf]
           [Fin (- self_gamma self * dot (vm ?eta (self_P self)) ?eta
                 - dot (vm (vm (smul 2 ?eta) (self_P self)) (self_F self)) ?eta
                 - dot (vm (vm (smul 2 ?eta) (self_P self)) (self_G self)) d)]
           (vd @ [delta])]\<rparr>\<rparr>"
    unfolding eta by auto
  have V: "V_spec (self_P self) ?eta = 0"
    by (simp add: V_spec_def)
  have row: "linear_holds sol [replicate (length vd) 0 @ [- 1]] [NegInf] [Fin 0] (vd @ [delta])
        \<longleftrightarrow> 0 \<le> sol delta" for sol
    by (simp add: linear_holds_row dot_append)
  have slack: "linear_holds sol [[1]] [NegInf] [Fin 0] [delta] \<longleftrightarrow> sol delta \<le> 0" for sol
    by (simp add: linear_holds_row)
  show ?thesis
    unfolding eta using V row slack self' by (auto simp: vm_zero r l)
qed

theorem zero_error_CLF_row_witness:
  "\<exists>self'. AddVdotConstraint ex_self (replicate 6 0) (replicate 6 0) ex_J_body [0, 1]
        [0, 0, 0, 0, 0, 0] [0, 0, 0, 0, 0, 0] [15] = Some self'
     \<and> constraints (self_mp self') = [LinearConstraint [[0, 0, - 1]] [NegInf] [Fin 0] [0, 1, 15]]
     \<and> (\<forall>sol. linear_holds sol [[0, 0, - 1]] [NegInf] [Fin 0] [0, 1, 15]
          \<and> linear_holds sol [[1]] [NegInf] [Fin 0] [15] \<longleftrightarrow> sol 15 = 0)"
proof -
  let ?self' = "ex_self\<lparr>self_mp := MathematicalProgram\<lparr>constraints :=
     [LinearConstraint [[0, 0, - 1]] [NegInf] [Fin 0] [0, 1, 15]]\<rparr>\<rparr>"
  have ok: "AddVdotConstraint ex_self (replicate 6 0) (replicate 6 0) ex_J_body [0, 1]
        [0, 0, 0, 0, 0, 0] [0, 0, 0, 0, 0, 0] [15] = Some ?self'"
    by code_simp
  have c: "constraints (self_mp ?self') =
     [LinearConstraint [[0, 0, - 1]] [NegInf] [Fin 0] [0, 1, 15]]"
    by simp
  have rep: "replicate (length [0::nat, 1]) (0::real) @ [- 1] = [0, 0, - 1]"
    "[0::nat, 1] @ [15] = [0, 1, 15]"
    by (simp_all add: numeral_2_eq_2)
  from zero_error_CLF_row[OF ok]
  have "\<forall>sol. linear_holds sol [[0, 0, - 1]] [NegInf] [Fin 0] [0, 1, 15]
          \<and> linear_holds sol [[1]] [NegInf] [Fin 0] [15] \<longleftrightarrow> sol 15 = 0"
    unfolding rep by blast
  with ok c show ?thesis
    by blast
qed

section \<open>The concrete tick, evaluated\<close>

lemma ex_task_space: "ControlLaw_task_space ex_plant ex_m ex_td ex_v = Some ex_ts"
  by code_simp

lemma ex_variables:
  "ControlLaw_variables ex_plant (ts_num_contact ex_ts)
     = (ex_vars, ex_mp\<lparr>costs := [], constraints := []\<rparr>)"
  by code_simp

lemma ex_program:
  "ControlLaw_program ex_self ex_plant ex_m ex_ts ex_v
     = Some (ex_vars, ex_self\<lparr>self_mp := ex_mp\<rparr>)"
  by code_simp

lemma ex_run: "ControlLaw ex_self ex_plant ex_m ex_td ex_v = Inr ([- 10], ex_final)"
  by code_simp


lemma ex_task_space_fail: "ControlLaw_task_space ex_plant_fail ex_m ex_td ex_v = Some ex_ts"
  by code_simp

lemma ex_program_fail:
  "ControlLaw_program ex_self ex_plant_fail ex_m ex_ts ex_v
     = Some (ex_vars, ex_self\<lparr>self_mp := ex_mp\<rparr>)"
  by code_simp

lemma ex_task_space_swing:
  "ControlLaw_task_space ex_plant ex_m ex_td_swing ex_v = Some ex_ts_swing"
  by code_simp

lemma ex_variables_swing:
  "ControlLaw_variables ex_plant (ts_num_contact ex_ts_swing) = (ex_vars_swing, ex_mp_swing)"
  by code_simp

lemma ex_task_space_flight: "ControlLaw_task_space ex_plant ex_m ex_td_flight ex_v \<noteq> None"
  by code_simp

lemma ex_task_space_rates:
  "ControlLaw_task_space ex_plant ex_m ex_td_rates ex_v_rates = Some ex_ts_rates"
  by code_simp

lemma ex_feet:
  "m_lf ex_m = ([1, 1, 0], ex_J_foot, [0, 0, 0])" "m_rf ex_m = ([1, - 1, 0], ex_J_foot, [0, 0, 0])"
  "m_lh ex_m = ([- 1, 1, 0], ex_J_foot, [0, 0, 0])"
  "m_rh ex_m = ([- 1, - 1, 0], ex_J_foot, [0, 0, 0])"
  by (simp_all add: ex_m_def)

lemma ex_body:
  "length (m_rpy_body ex_m) = 3" "length (m_p_body ex_m) = 3" "length (m_J_body ex_m) = 6"
  by (simp_all add: ex_m_def ex_J_body_def)

lemma ex_foot: "length ex_J_foot = 3"
  by (simp add: ex_J_foot_def)

section \<open>The task-space quantities and the program of a tick\<close>



lemma mask_SomeD: "mask xs bs = Some ys \<Longrightarrow> ys = sel bs xs"
  by (auto simp: mask_def sel_def split: if_splits)

lemma mask_flagsD: "mask xs bs = Some ys \<Longrightarrow> bs = [] \<or> length bs = length xs"
  by (auto simp: mask_def split: if_splits)

lemma array2_SomeD: "array2 vs = Some A \<Longrightarrow> A = vs \<and> rect vs"
  by (auto simp: array2_def split: if_splits)

lemma array3_SomeD: "array3 As = Some Bs \<Longrightarrow> Bs = As \<and> list_all rect As \<and>
    list_all (\<lambda>A. length A = length (hd As) \<and> ncols A = ncols (hd As)) As"
  by (auto simp: array3_def split: if_splits)

lemma reshape_4_3_SomeD: "reshape_4_3 A = Some B \<Longrightarrow> B = A \<and> length A = 4 \<and> ncols A = 3"
  by (auto simp: reshape_4_3_def split: if_splits)

lemma task_space_flags:
  assumes "ControlLaw_task_space pl m td v = Some ts"
  shows "td_contact_states td = [] \<or> length (td_contact_states td) = 4"
proof -
  from assms obtain a s where
    "array2 [td_p_lf td, td_p_rf td, td_p_lh td, td_p_rh td] = Some a"
    "mask a (map Not (td_contact_states td)) = Some s"
    unfolding ControlLaw_task_space_def Let_def by (auto simp: bind_eq_Some_conv)
  then show ?thesis
    by (auto simp: array2_def dest!: mask_flagsD split: if_splits)
qed

lemma task_space_SomeD:
  assumes ok: "ControlLaw_task_space pl m td v = Some ts"
    and feet: "m_lf m = (p_lf, J_lf, Jdv_lf)" "m_rf m = (p_rf, J_rf, Jdv_rf)"
      "m_lh m = (p_lh, J_lh, Jdv_lh)" "m_rh m = (p_rh, J_rh, Jdv_rh)"
  defines "contact \<equiv> td_contact_states td"
  defines "swing \<equiv> map Not (td_contact_states td)"
  shows "\<exists>Jv rpyd w w_nom wd_nom pd_feet J.
      (contact = [] \<or> length contact = 4)
    \<and> rect [p_lf, p_rf, p_lh, p_rh] \<and> ncols [p_lf, p_rf, p_lh, p_rh] = 3
    \<and> array3 [J_lf, J_rf, J_lh, J_rh] = Some [J_lf, J_rf, J_lh, J_rh]
    \<and> matmul_mv (m_J_body m) v = Some Jv
    \<and> CalcRpyDtFromAngularVelocityInParent pl (m_rpy_body m) (take 3 Jv) = Some rpyd
    \<and> CalcAngularVelocityInParentFromRpyDt pl (m_rpy_body m) rpyd = Some w
    \<and> CalcAngularVelocityInParentFromRpyDt pl (m_rpy_body m) (td_rpyd_body td) = Some w_nom
    \<and> CalcAngularVelocityInParentFromRpyDt pl (m_rpy_body m) (td_rpydd_body td) = Some wd_nom
    \<and> matmul_batch [J_lf, J_rf, J_lh, J_rh] v = Some pd_feet
    \<and> (if list_ex id swing then vstack [m_J_body m, concat (sel swing [J_lf, J_rf, J_lh, J_rh])]
        else Some (m_J_body m)) = Some J
    \<and> ts_contact_feet ts = contact \<and> ts_swing_feet ts = swing
    \<and> ts_num_contact ts = length (filter id contact)
    \<and> ts_num_swing ts = length (filter id swing)
    \<and> ts_J_c ts = sel contact [J_lf, J_rf, J_lh, J_rh]
    \<and> ts_Jdv_c ts = sel contact [Jdv_lf, Jdv_rf, Jdv_lh, Jdv_rh]
    \<and> ts_J ts = J
    \<and> ts_Jdv ts = (if list_ex id swing
                   then m_Jdv_body m @ concat (sel swing [Jdv_lf, Jdv_rf, Jdv_lh, Jdv_rh])
                   else m_Jdv_body m)
    \<and> ts_x ts = m_rpy_body m @ m_p_body m @ concat (sel swing [p_lf, p_rf, p_lh, p_rh])
    \<and> ts_xd ts = w @ drop 3 Jv @ concat (sel swing pd_feet)
    \<and> ts_x_nom ts = td_rpy_body td @ td_p_body td
            @ concat (sel swing [td_p_lf td, td_p_rf td, td_p_lh td, td_p_rh td])
    \<and> ts_xd_nom ts = w_nom @ td_pd_body td
            @ concat (sel swing [td_pd_lf td, td_pd_rf td, td_pd_lh td, td_pd_rh td])
    \<and> ts_xdd_nom ts = wd_nom @ td_pdd_body td
            @ concat (sel swing [td_pdd_lf td, td_pdd_rf td, td_pdd_lh td, td_pdd_rh td])
    \<and> sub (ts_x ts) (ts_x_nom ts) = Some (ts_x_tilde ts)
    \<and> sub (ts_xd ts) (ts_xd_nom ts) = Some (ts_xd_tilde ts)"
  using ok task_space_flags[OF ok]
  unfolding ControlLaw_task_space_def contact_def swing_def Let_def feet prod.case
  by (auto simp: bind_eq_Some_conv array3_def dest!: mask_SomeD array2_SomeD reshape_4_3_SomeD
      split: if_splits)


lemma length_sel_eq: "length bs = length xs \<Longrightarrow> length (sel bs xs) = length (filter id bs)"
  unfolding sel_def by (induction bs xs rule: list_induct2) simp_all

lemma length_sel:
  "bs = [] \<or> length bs = length xs \<Longrightarrow> length (sel bs xs) = length (filter id bs)"
  by (auto simp: length_sel_eq) (simp add: sel_def)

lemma set_sel: "set (sel bs xs) \<subseteq> set xs"
  unfolding sel_def by (auto dest: set_zip_leftD)

lemma length_concat_const:
  "(\<And>x. x \<in> set xs \<Longrightarrow> length x = k) \<Longrightarrow> length (concat xs) = k * length xs"
  by (induction xs) simp_all

lemma length_concat_sel:
  assumes "bs = [] \<or> length bs = length xs" "\<And>x. x \<in> set xs \<Longrightarrow> length x = k"
  shows "length (concat (sel bs xs)) = k * length (filter id bs)"
proof -
  have "length (concat (sel bs xs)) = k * length (sel bs xs)"
    using assms(2) set_sel[of bs xs] by (intro length_concat_const) auto
  then show ?thesis by (simp add: length_sel assms(1))
qed

lemma sel_none: "\<not> list_ex id bs \<Longrightarrow> sel bs xs = []"
  unfolding sel_def by (auto simp: list_ex_iff filter_empty_conv dest: set_zip_rightD)

lemma filter_none: "\<not> list_ex id bs \<Longrightarrow> filter id bs = []"
  by (auto simp: list_ex_iff filter_empty_conv)

lemma filter_Not_none: "\<not> list_ex id (map Not cs) \<Longrightarrow> filter Not cs = []"
  by (auto simp: list_ex_iff filter_empty_conv)

lemma rect4_rows:
  "rect [a, b, c, d] \<Longrightarrow> ncols [a, b, c, d] = k \<Longrightarrow> x \<in> set [a, b, c, d] \<Longrightarrow> length x = k"
  by (auto simp: rect_def ncols_def)

lemma vstack_SomeD: "vstack As = Some A \<Longrightarrow> A = concat As"
  by (auto simp: vstack_def split: if_splits)

text \<open>
  C6: the stacked task vector is the body's roll-pitch-yaw angles, then the body's
  position, then the positions of the swing feet in the order of the feet; it has
  \<open>6 + 3 * num_swing\<close> entries and the stacked Jacobian has as many rows. With all feet
  in contact the vector, the Jacobian and the bias are those of the body alone, of
  dimension 6. The plant gives 3 angles, a position of 3 coordinates, a body Jacobian of 6
  rows and foot Jacobians of 3 rows.
\<close>

theorem stacked_task_vector:
  assumes ok: "ControlLaw_task_space pl m td v = Some ts"
    and feet: "m_lf m = (p_lf, J_lf, Jdv_lf)" "m_rf m = (p_rf, J_rf, Jdv_rf)"
      "m_lh m = (p_lh, J_lh, Jdv_lh)" "m_rh m = (p_rh, J_rh, Jdv_rh)"
    and body: "length (m_rpy_body m) = 3" "length (m_p_body m) = 3" "length (m_J_body m) = 6"
    and foot: "length J_lf = 3" "length J_rf = 3" "length J_lh = 3" "length J_rh = 3"
  shows "ts_swing_feet ts = map Not (td_contact_states td)
    \<and> ts_num_swing ts = length (filter id (ts_swing_feet ts))
    \<and> ts_x ts = m_rpy_body m @ m_p_body m
         @ concat (sel (ts_swing_feet ts) [p_lf, p_rf, p_lh, p_rh])
    \<and> ts_x_nom ts = td_rpy_body td @ td_p_body td
         @ concat (sel (ts_swing_feet ts) [td_p_lf td, td_p_rf td, td_p_lh td, td_p_rh td])
    \<and> length (ts_x ts) = 6 + 3 * ts_num_swing ts
    \<and> length (ts_J ts) = 6 + 3 * ts_num_swing ts
    \<and> (list_all id (td_contact_states td) \<longrightarrow>
         ts_num_swing ts = 0 \<and> ts_x ts = m_rpy_body m @ m_p_body m \<and> length (ts_x ts) = 6
         \<and> ts_J ts = m_J_body m \<and> length (ts_J ts) = 6 \<and> ts_Jdv ts = m_Jdv_body m)"
proof -
  let ?swing = "map Not (td_contact_states td)"
  from task_space_SomeD[OF ok feet] obtain J where
    len: "td_contact_states td = [] \<or> length (td_contact_states td) = 4"
    and p: "rect [p_lf, p_rf, p_lh, p_rh]" "ncols [p_lf, p_rf, p_lh, p_rh] = 3"
    and J: "(if list_ex id ?swing
         then vstack [m_J_body m, concat (sel ?swing [J_lf, J_rf, J_lh, J_rh])]
         else Some (m_J_body m)) = Some J"
    and ts: "ts_swing_feet ts = ?swing" "ts_num_swing ts = length (filter id ?swing)"
      "ts_x ts = m_rpy_body m @ m_p_body m @ concat (sel ?swing [p_lf, p_rf, p_lh, p_rh])"
      "ts_x_nom ts = td_rpy_body td @ td_p_body td
         @ concat (sel ?swing [td_p_lf td, td_p_rf td, td_p_lh td, td_p_rh td])"
      "ts_J ts = J"
      "ts_Jdv ts = (if list_ex id ?swing
                   then m_Jdv_body m @ concat (sel ?swing [Jdv_lf, Jdv_rf, Jdv_lh, Jdv_rh])
                   else m_Jdv_body m)"
    by blast
  have lp: "length (concat (sel ?swing [p_lf, p_rf, p_lh, p_rh])) = 3 * length (filter id ?swing)"
    using len rect4_rows[OF p] by (intro length_concat_sel) auto
  have lJ: "length (concat (sel ?swing [J_lf, J_rf, J_lh, J_rh])) = 3 * length (filter id ?swing)"
    using len foot by (intro length_concat_sel) auto
  have J': "length J = 6 + 3 * length (filter id ?swing)"
    using J lJ body by (auto simp: filter_none filter_Not_none dest!: vstack_SomeD split: if_splits)
  have none: "\<not> list_ex id ?swing" if "list_all id (td_contact_states td)"
    using that by (auto simp: list_all_iff list_ex_iff)
  show ?thesis
    using ts lp J' J body none by (auto simp: sel_none filter_none filter_Not_none)
qed

theorem stacked_task_vector_witness:
  "ControlLaw_task_space ex_plant ex_m ex_td_swing ex_v = Some ex_ts_swing
   \<and> ts_x ex_ts_swing = [0, 0, 0] @ [2, 0, 0] @ [1, - 1, 0]
   \<and> length (ts_x ex_ts_swing) = 6 + 3 * 1 \<and> length (ts_J ex_ts_swing) = 6 + 3 * 1
   \<and> ControlLaw_task_space ex_plant ex_m ex_td ex_v = Some ex_ts
   \<and> list_all id (td_contact_states ex_td)
   \<and> ts_x ex_ts = m_rpy_body ex_m @ m_p_body ex_m \<and> ts_J ex_ts = m_J_body ex_m
   \<and> length (ts_x ex_ts) = 6 \<and> length (ts_J ex_ts) = 6"
proof -
  have c: "list_all id (td_contact_states ex_td)"
    by (simp add: ex_td_def)
  from stacked_task_vector[OF ex_task_space_swing ex_feet ex_body ex_foot ex_foot ex_foot ex_foot]
  have "ts_x ex_ts_swing = [0, 0, 0] @ [2, 0, 0] @ [1, - 1, 0]
    \<and> length (ts_x ex_ts_swing) = 6 + 3 * 1 \<and> length (ts_J ex_ts_swing) = 6 + 3 * 1"
    by (simp add: ex_ts_swing_def ex_m_def sel_def)
  moreover
  from stacked_task_vector[OF ex_task_space ex_feet ex_body ex_foot ex_foot ex_foot ex_foot] c
  have "ts_x ex_ts = m_rpy_body ex_m @ m_p_body ex_m \<and> ts_J ex_ts = m_J_body ex_m
    \<and> length (ts_x ex_ts) = 6 \<and> length (ts_J ex_ts) = 6"
    by blast
  ultimately show ?thesis
    using ex_task_space_swing ex_task_space c by blast
qed


lemma NewContinuousVariables_eq:
  "NewContinuousVariables n mp =
     ([length (decision_variables mp)..<length (decision_variables mp) + n],
      mp\<lparr>decision_variables := decision_variables mp
         @ [length (decision_variables mp)..<length (decision_variables mp) + n]\<rparr>)"
  by (simp add: NewContinuousVariables_def Let_def map_add_upt add.commute)

lemma upt_append_add: "[a..<a + b] @ [a + b..<a + (b + c)] = [a..<a + (b + c)]"
  using upt_add_eq_append[of a "a + b" c] by (simp add: add.assoc)

lemma new_forces_spec:
  "new_forces n mp = (fs, mp') \<Longrightarrow>
     length fs = n \<and> list_all (\<lambda>f. length f = 3) fs
     \<and> concat fs = [length (decision_variables mp)..<length (decision_variables mp) + 3 * n]
     \<and> mp' = mp\<lparr>decision_variables := decision_variables mp @ concat fs\<rparr>"
proof (induction n arbitrary: mp fs mp')
  case 0
  then show ?case by simp
next
  case (Suc n)
  let ?L = "length (decision_variables mp)"
  let ?mp1 = "mp\<lparr>decision_variables := decision_variables mp @ [?L..<?L + 3]\<rparr>"
  obtain fs1 mp1 where r: "new_forces n ?mp1 = (fs1, mp1)"
    by (cases "new_forces n ?mp1")
  from Suc.prems r have fs: "fs = [?L..<?L + 3] # fs1" and mp': "mp' = mp1"
    by (simp_all add: NewContinuousVariables_eq)
  from Suc.IH[OF r] have ih: "length fs1 = n" "list_all (\<lambda>f. length f = 3) fs1"
    "concat fs1 = [?L + 3..<?L + 3 + 3 * n]"
    "mp1 = ?mp1\<lparr>decision_variables := decision_variables ?mp1 @ concat fs1\<rparr>"
    by simp_all
  have "[?L..<?L + 3] @ [?L + 3..<?L + 3 + 3 * n] = [?L..<?L + 3 * Suc n]"
    using upt_append_add[of ?L 3 "3 * n"] by (simp add: add.assoc)
  with fs mp' ih show ?case by simp
qed

lemma ControlLaw_variables_spec:
  assumes "ControlLaw_variables pl n = (vars, mp)"
  shows "var_vd vars = [0..<num_velocities pl]
    \<and> var_tau vars = [num_velocities pl..<num_velocities pl + num_actuators pl]
    \<and> length (var_f_c vars) = n \<and> list_all (\<lambda>f. length f = 3) (var_f_c vars)
    \<and> concat (var_f_c vars) = [num_velocities pl + num_actuators pl
         ..<num_velocities pl + num_actuators pl + 3 * n]
    \<and> var_delta vars = [num_velocities pl + num_actuators pl + 3 * n]
    \<and> decision_variables mp = [0..<num_velocities pl + num_actuators pl + 3 * n + 1]
    \<and> costs mp = [] \<and> constraints mp = []"
proof -
  let ?mp2 = "MathematicalProgram\<lparr>decision_variables :=
     [0..<num_velocities pl] @ [num_velocities pl..<num_velocities pl + num_actuators pl]\<rparr>"
  obtain fs mp3 where f: "new_forces n ?mp2 = (fs, mp3)"
    by (cases "new_forces n ?mp2")
  from new_forces_spec[OF f] have 3: "length fs = n" "list_all (\<lambda>f. length f = 3) fs"
    "concat fs = [num_velocities pl + num_actuators pl
         ..<num_velocities pl + num_actuators pl + 3 * n]"
    "mp3 = ?mp2\<lparr>decision_variables := decision_variables ?mp2 @ concat fs\<rparr>"
    by (simp_all add: MathematicalProgram_def)
  have app: "[0..<num_velocities pl] @ [num_velocities pl..<num_velocities pl + num_actuators pl]
      @ [num_velocities pl + num_actuators pl..<num_velocities pl + num_actuators pl + 3 * n]
    = [0..<num_velocities pl + num_actuators pl + 3 * n]"
    by (metis add.assoc add.left_neutral upt_add_eq_append le_add1)
  from assms f show ?thesis
    using 3 app
    by (auto simp: ControlLaw_variables_def Let_def NewContinuousVariables_eq
        MathematicalProgram_def)
qed


lemma AddVdotCost_SomeD:
  assumes "AddVdotCost self x_tilde xd_tilde J vd weight = Some self'"
  shows "rect (self_P self) \<and> rect (self_G self) \<and> rect J
     \<and> length (x_tilde @ xd_tilde) = length (self_P self)
     \<and> ncols (self_P self) = length (self_G self)
     \<and> ncols (self_G self) = length J \<and> ncols J = length vd
     \<and> self' = self\<lparr>self_mp := (self_mp self)\<lparr>costs := costs (self_mp self) @
         [LinearCost (vm (vm (vm (smul (weight * 2) (x_tilde @ xd_tilde)) (self_P self))
            (self_G self)) J) 0 vd]\<rparr>\<rparr>"
proof -
  from assms obtain eP ePG a mp' where
    s: "matmul_vm (smul (weight * 2) (x_tilde @ xd_tilde)) (self_P self) = Some eP"
       "matmul_vm eP (self_G self) = Some ePG" "matmul_vm ePG J = Some a"
       "AddLinearCost a 0 vd (self_mp self) = Some mp'" "self' = self\<lparr>self_mp := mp'\<rparr>"
    unfolding AddVdotCost_def Let_def by (auto simp: bind_eq_Some_conv)
  from s(4) have "length a = length vd"
    "mp' = (self_mp self)\<lparr>costs := costs (self_mp self) @ [LinearCost a 0 vd]\<rparr>"
    by (auto simp: AddLinearCost_def split: if_splits)
  with s(1,2,3)[THEN matmul_vm_SomeD] s(5) show ?thesis
    by auto
qed

lemma ControlLaw_program_SomeD:
  assumes "ControlLaw_program self pl m ts v = Some (vars, self')"
  shows "\<exists>mp0 self1 self2 mp3.
      ControlLaw_variables pl (ts_num_contact ts) = (vars, mp0)
    \<and> AddVdotCost (self\<lparr>self_mp := AddJacobianTypeCost (ts_J ts) (var_vd vars) (ts_Jdv ts)
           (ts_xdd_nom ts) 1 mp0\<rparr>)
         (ts_x_tilde ts) (ts_xd_tilde ts) (ts_J ts) (var_vd vars) 1 = Some self1
    \<and> AddVdotConstraint self1 (ts_x_tilde ts) (ts_xd_tilde ts) (ts_J ts) (var_vd vars)
         (ts_Jdv ts) (ts_xdd_nom ts) (var_delta vars) = Some self2
    \<and> AddLinearConstraint [[1]] [NegInf] [Fin 0] [hd (var_delta vars)] (self_mp self2) = Some mp3
    \<and> self' = self2\<lparr>self_mp :=
         (if list_ex id (ts_contact_feet ts)
          then AddContactConstraint (ts_J_c ts) (var_vd vars) (ts_Jdv_c ts) v
                 (AddFrictionPyramidConstraint (var_f_c vars)
                   (AddDynamicsConstraint (m_M m) (var_vd vars) (m_Cv m) (m_tau_g m) (m_S m)
                     (var_tau vars) (ts_J_c ts) (var_f_c vars) mp3))
          else AddDynamicsConstraint (m_M m) (var_vd vars) (m_Cv m) (m_tau_g m) (m_S m)
                 (var_tau vars) (ts_J_c ts) (var_f_c vars) mp3)\<rparr>"
  using assms unfolding ControlLaw_program_def Let_def
  by (auto simp: bind_eq_Some_conv split: prod.splits)

text \<open>The program of a tick that got as far as the solver.\<close>

lemma ControlLaw_program_constraints:
  assumes "ControlLaw_program self pl m ts v = Some (vars, self')"
  defines "eta \<equiv> ts_x_tilde ts @ ts_xd_tilde ts"
  shows "\<exists>mp0 d delta.
      ControlLaw_variables pl (ts_num_contact ts) = (vars, mp0)
    \<and> var_delta vars = [delta]
    \<and> self' = self\<lparr>self_mp := self_mp self'\<rparr>
    \<and> decision_variables (self_mp self') = decision_variables mp0
    \<and> sub (ts_Jdv ts) (ts_xdd_nom ts) = Some d \<and> length d = ncols (self_G self)
    \<and> rect (self_P self) \<and> rect (self_F self) \<and> rect (self_G self) \<and> rect (ts_J ts)
    \<and> length eta = length (self_P self) \<and> ncols (self_P self) = length eta
    \<and> ncols (self_P self) = length (self_F self) \<and> ncols (self_P self) = length (self_G self)
    \<and> ncols (self_F self) = length eta \<and> ncols (self_G self) = length (ts_J ts)
    \<and> ncols (ts_J ts) = length (var_vd vars)
    \<and> constraints (self_mp self') =
        [LinearConstraint [vm (vm (vm (smul 2 eta) (self_P self)) (self_G self)) (ts_J ts) @ [- 1]]
           [NegInf]
           [Fin (- self_gamma self * dot (vm eta (self_P self)) eta
                 - dot (vm (vm (smul 2 eta) (self_P self)) (self_F self)) eta
                 - dot (vm (vm (smul 2 eta) (self_P self)) (self_G self)) d)]
           (var_vd vars @ [delta]),
         LinearConstraint [[1]] [NegInf] [Fin 0] [delta],
         DynamicsConstraint (m_M m) (var_vd vars) (m_Cv m) (m_tau_g m) (m_S m)
             (var_tau vars) (ts_J_c ts) (var_f_c vars)]
        @ (if list_ex id (ts_contact_feet ts)
           then [FrictionPyramidConstraint (var_f_c vars),
                 ContactConstraint (ts_J_c ts) (var_vd vars) (ts_Jdv_c ts) v]
           else [])"
proof -
  from ControlLaw_program_SomeD[OF assms(1)] obtain mp0 self1 self2 mp3 where
    v: "ControlLaw_variables pl (ts_num_contact ts) = (vars, mp0)"
    and c: "AddVdotCost (self\<lparr>self_mp := AddJacobianTypeCost (ts_J ts) (var_vd vars) (ts_Jdv ts)
           (ts_xdd_nom ts) 1 mp0\<rparr>)
         (ts_x_tilde ts) (ts_xd_tilde ts) (ts_J ts) (var_vd vars) 1 = Some self1"
    and k: "AddVdotConstraint self1 (ts_x_tilde ts) (ts_xd_tilde ts) (ts_J ts) (var_vd vars)
         (ts_Jdv ts) (ts_xdd_nom ts) (var_delta vars) = Some self2"
    and s: "AddLinearConstraint [[1]] [NegInf] [Fin 0] [hd (var_delta vars)] (self_mp self2)
         = Some mp3"
    and self': "self' = self2\<lparr>self_mp :=
         (if list_ex id (ts_contact_feet ts)
          then AddContactConstraint (ts_J_c ts) (var_vd vars) (ts_Jdv_c ts) v
                 (AddFrictionPyramidConstraint (var_f_c vars)
                   (AddDynamicsConstraint (m_M m) (var_vd vars) (m_Cv m) (m_tau_g m) (m_S m)
                     (var_tau vars) (ts_J_c ts) (var_f_c vars) mp3))
          else AddDynamicsConstraint (m_M m) (var_vd vars) (m_Cv m) (m_tau_g m) (m_S m)
                 (var_tau vars) (ts_J_c ts) (var_f_c vars) mp3)\<rparr>"
    by blast
  note vs = ControlLaw_variables_spec[OF v]
  define delta where "delta = num_velocities pl + num_actuators pl + 3 * ts_num_contact ts"
  have delta: "var_delta vars = [delta]" "hd (var_delta vars) = delta"
    using vs by (simp_all add: delta_def)
  from AddVdotCost_SomeD[OF c] have
    self1: "self1 = self\<lparr>self_mp := mp0\<lparr>costs := costs (self_mp self1)\<rparr>\<rparr>"
    by (simp add: AddJacobianTypeCost_def)
  have f1: "self_P self1 = self_P self" "self_F self1 = self_F self" "self_G self1 = self_G self"
    "self_gamma self1 = self_gamma self" "constraints (self_mp self1) = []"
    "decision_variables (self_mp self1) = decision_variables mp0"
    using vs by (subst self1, simp)+
  from AddVdotConstraint_SomeD[OF k, unfolded f1 delta] obtain d where
    d: "sub (ts_Jdv ts) (ts_xdd_nom ts) = Some d" "length d = ncols (self_G self)"
    and r: "rect (self_P self)" "rect (self_F self)" "rect (self_G self)" "rect (ts_J ts)"
    and l: "length eta = length (self_P self)" "ncols (self_P self) = length eta"
      "ncols (self_P self) = length (self_F self)" "ncols (self_P self) = length (self_G self)"
      "ncols (self_F self) = length eta" "ncols (self_G self) = length (ts_J ts)"
      "ncols (ts_J ts) = length (var_vd vars)"
    and self2: "self2 = self1\<lparr>self_mp := (self_mp self1)\<lparr>constraints := [] @
         [LinearConstraint [vm (vm (vm (smul 2 eta) (self_P self)) (self_G self)) (ts_J ts) @ [- 1]]
           [NegInf]
           [Fin (- self_gamma self * dot (vm eta (self_P self)) eta
                 - dot (vm (vm (smul 2 eta) (self_P self)) (self_F self)) eta
                 - dot (vm (vm (smul 2 eta) (self_P self)) (self_G self)) d)]
           (var_vd vars @ [delta])]\<rparr>\<rparr>"
    unfolding eta_def by auto
  from AddLinearConstraint_SomeD[OF s] have mp3: "mp3 = (self_mp self2)\<lparr>constraints :=
      constraints (self_mp self2) @ [LinearConstraint [[1]] [NegInf] [Fin 0] [delta]]\<rparr>"
    by (simp add: delta)
  have "self' = self\<lparr>self_mp := self_mp self'\<rparr>"
    by (subst (1 2) self', subst (1 2) self2, subst (1 3) self1) simp
  moreover have "decision_variables (self_mp self') = decision_variables mp0"
    unfolding self' mp3 self2 using f1(6)
    by (simp add: AddContactConstraint_def AddFrictionPyramidConstraint_def
        AddDynamicsConstraint_def)
  moreover have "constraints (self_mp self') =
        [LinearConstraint [vm (vm (vm (smul 2 eta) (self_P self)) (self_G self)) (ts_J ts) @ [- 1]]
           [NegInf]
           [Fin (- self_gamma self * dot (vm eta (self_P self)) eta
                 - dot (vm (vm (smul 2 eta) (self_P self)) (self_F self)) eta
                 - dot (vm (vm (smul 2 eta) (self_P self)) (self_G self)) d)]
           (var_vd vars @ [delta]),
         LinearConstraint [[1]] [NegInf] [Fin 0] [delta],
         DynamicsConstraint (m_M m) (var_vd vars) (m_Cv m) (m_tau_g m) (m_S m)
             (var_tau vars) (ts_J_c ts) (var_f_c vars)]
        @ (if list_ex id (ts_contact_feet ts)
           then [FrictionPyramidConstraint (var_f_c vars),
                 ContactConstraint (ts_J_c ts) (var_vd vars) (ts_Jdv_c ts) v]
           else [])"
    unfolding self' mp3 self2
    by (simp add: AddContactConstraint_def AddFrictionPyramidConstraint_def
        AddDynamicsConstraint_def)
  ultimately show ?thesis
    using v delta(1) d r l by blast
qed


text \<open>
  C9: for a setpoint with four contact flags, the swing flags are the negated contact
  flags, so the swing feet and the contact feet are disjoint and together are the four feet; the program gets one force
  of three fresh variables for each contact foot (as many forces as contact flags are
  set, and as many as contact Jacobians), and a program that reaches the solver still has
  exactly these variables and pairs the forces with the contact Jacobians in its dynamics
  constraint.
\<close>

theorem feet_partition_and_force_variables:
  assumes ok: "ControlLaw_task_space pl m td v = Some ts"
    and vars: "ControlLaw_variables pl (ts_num_contact ts) = (vars, mp)"
    and four: "length (td_contact_states td) = 4"
  shows "ts_contact_feet ts = td_contact_states td
    \<and> length (ts_contact_feet ts) = 4
    \<and> ts_swing_feet ts = map Not (ts_contact_feet ts)
    \<and> {i. i < 4 \<and> ts_swing_feet ts ! i} \<inter> {i. i < 4 \<and> ts_contact_feet ts ! i} = {}
    \<and> {i. i < 4 \<and> ts_swing_feet ts ! i} \<union> {i. i < 4 \<and> ts_contact_feet ts ! i} = {0..<4}
    \<and> ts_num_contact ts = card {i. i < 4 \<and> ts_contact_feet ts ! i}
    \<and> length (var_f_c vars) = ts_num_contact ts
    \<and> length (var_f_c vars) = length (ts_J_c ts)
    \<and> list_all (\<lambda>f. length f = 3) (var_f_c vars)
    \<and> distinct (concat (var_f_c vars))
    \<and> set (concat (var_f_c vars)) \<subseteq> set (decision_variables mp)
    \<and> (\<forall>self vars' self'. ControlLaw_program self pl m ts v = Some (vars', self') \<longrightarrow>
          vars' = vars \<and> decision_variables (self_mp self') = decision_variables mp
          \<and> DynamicsConstraint (m_M m) (var_vd vars) (m_Cv m) (m_tau_g m) (m_S m)
               (var_tau vars) (ts_J_c ts) (var_f_c vars) \<in> set (constraints (self_mp self')))"
proof -
  obtain p_lf J_lf Jdv_lf p_rf J_rf Jdv_rf p_lh J_lh Jdv_lh p_rh J_rh Jdv_rh where
    feet: "m_lf m = (p_lf, J_lf, Jdv_lf)" "m_rf m = (p_rf, J_rf, Jdv_rf)"
      "m_lh m = (p_lh, J_lh, Jdv_lh)" "m_rh m = (p_rh, J_rh, Jdv_rh)"
    by (metis prod_cases3)
  let ?c = "td_contact_states td"
  note len = four
  from task_space_SomeD[OF ok feet] have
    ts: "ts_contact_feet ts = ?c" "ts_swing_feet ts = map Not ?c"
      "ts_num_contact ts = length (filter id ?c)"
      "ts_J_c ts = sel ?c [J_lf, J_rf, J_lh, J_rh]"
    by blast+
  have disj: "{i. i < 4 \<and> map Not ?c ! i} \<inter> {i. i < 4 \<and> ?c ! i} = {}"
    using len by auto
  have cover: "{i. i < 4 \<and> map Not ?c ! i} \<union> {i. i < 4 \<and> ?c ! i} = {0..<4}"
    using len by auto
  have card: "length (filter id ?c) = card {i. i < 4 \<and> ?c ! i}"
    using len by (simp add: length_filter_conv_card)
  have Jc: "length (sel ?c [J_lf, J_rf, J_lh, J_rh]) = length (filter id ?c)"
    using len by (intro length_sel) simp
  note vs = ControlLaw_variables_spec[OF vars]
  have f: "length (var_f_c vars) = ts_num_contact ts"
    "list_all (\<lambda>f. length f = 3) (var_f_c vars)" "distinct (concat (var_f_c vars))"
    "set (concat (var_f_c vars)) \<subseteq> set (decision_variables mp)"
    using vs by auto
  have prog: "vars' = vars \<and> decision_variables (self_mp self') = decision_variables mp
          \<and> DynamicsConstraint (m_M m) (var_vd vars) (m_Cv m) (m_tau_g m) (m_S m)
               (var_tau vars) (ts_J_c ts) (var_f_c vars) \<in> set (constraints (self_mp self'))"
    if "ControlLaw_program self pl m ts v = Some (vars', self')" for self vars' self'
    using ControlLaw_program_constraints[OF that] vars by auto
  show ?thesis
    using ts len disj cover card Jc f by (auto dest: prog)
qed

theorem feet_partition_and_force_variables_witness:
  "ControlLaw_task_space ex_plant ex_m ex_td_swing ex_v = Some ex_ts_swing
   \<and> ControlLaw_variables ex_plant (ts_num_contact ex_ts_swing) = (ex_vars_swing, ex_mp_swing)
   \<and> {i. i < 4 \<and> ts_swing_feet ex_ts_swing ! i} \<inter> {i. i < 4 \<and> ts_contact_feet ex_ts_swing ! i} = {}
   \<and> {i. i < 4 \<and> ts_swing_feet ex_ts_swing ! i} \<union> {i. i < 4 \<and> ts_contact_feet ex_ts_swing ! i}
       = {0..<4}
   \<and> length (var_f_c ex_vars_swing) = card {i. i < 4 \<and> ts_contact_feet ex_ts_swing ! i}
   \<and> length (var_f_c ex_vars_swing) = 3
   \<and> ControlLaw_program ex_self ex_plant ex_m ex_ts ex_v
       = Some (ex_vars, ex_self\<lparr>self_mp := ex_mp\<rparr>)
   \<and> length (var_f_c ex_vars) = 4
   \<and> decision_variables (self_mp (ex_self\<lparr>self_mp := ex_mp\<rparr>))
       = decision_variables (ex_mp\<lparr>costs := [], constraints := []\<rparr>)"
proof -
  have four: "length (td_contact_states ex_td_swing) = 4" "length (td_contact_states ex_td) = 4"
    by (simp_all add: ex_td_swing_def ex_td_def)
  from feet_partition_and_force_variables[OF ex_task_space_swing ex_variables_swing four(1)]
  have "{i. i < 4 \<and> ts_swing_feet ex_ts_swing ! i} \<inter> {i. i < 4 \<and> ts_contact_feet ex_ts_swing ! i}
      = {}
    \<and> {i. i < 4 \<and> ts_swing_feet ex_ts_swing ! i} \<union> {i. i < 4 \<and> ts_contact_feet ex_ts_swing ! i}
       = {0..<4}
    \<and> ts_num_contact ex_ts_swing = card {i. i < 4 \<and> ts_contact_feet ex_ts_swing ! i}
    \<and> length (var_f_c ex_vars_swing) = ts_num_contact ex_ts_swing"
    by (elim conjE) (intro conjI; assumption)
  moreover have "ts_num_contact ex_ts_swing = 3"
    by (simp add: ex_ts_swing_def)
  moreover
  from feet_partition_and_force_variables[OF ex_task_space ex_variables four(2)] ex_program
  have "length (var_f_c ex_vars) = ts_num_contact ex_ts
    \<and> decision_variables (self_mp (ex_self\<lparr>self_mp := ex_mp\<rparr>))
       = decision_variables (ex_mp\<lparr>costs := [], constraints := []\<rparr>)"
    by (elim conjE allE[of _ ex_self] allE[of _ ex_vars] allE[of _ "ex_self\<lparr>self_mp := ex_mp\<rparr>"]
        impE) (assumption, intro conjI, assumption+)
  moreover have "ts_num_contact ex_ts = 4"
    by (simp add: ex_ts_def)
  ultimately show ?thesis
    using ex_task_space_swing ex_variables_swing ex_program
    by (elim conjE) (intro conjI; (assumption | simp only:))
qed


lemma sub_common_prefix:
  assumes "sub (w @ a) (w @ b) = Some t"
  shows "take (length w) t = replicate (length w) 0"
proof (cases "length a = length b")
  case True
  with assms have "t = map2 (-) (w @ a) (w @ b)"
    by (simp add: sub_def broadcast2_def)
  then show ?thesis
    by (auto intro!: nth_equalityI simp: nth_append)
next
  case False
  show ?thesis
  proof (cases w)
    case Nil
    then show ?thesis by simp
  next
    case (Cons x w')
    with False assms have "w' = [] \<and> (a = [] \<or> b = [])
      \<and> (t = map (\<lambda>y. y - x) (x # a) \<or> t = map (\<lambda>y. x - y) (x # b))"
      by (auto simp: sub_def broadcast2_def split: if_splits)
    with Cons show ?thesis by auto
  qed
qed

text \<open>
  C10: the nominal rates \<open>rpyd_body_nom\<close> and \<open>rpydd_body_nom\<close> are converted with the
  measured orientation \<open>rpy_body\<close>, the one that converts the measured rate; they are the
  leading entries of \<open>xd_nom\<close> and \<open>xdd_nom\<close>. When the measured and the nominal
  roll-pitch-yaw rates are equal, the angular-velocity entries of \<open>xd_tilde\<close> are zero,
  whatever the desired orientation is.
\<close>

theorem nominal_rates_use_measured_orientation:
  assumes ok: "ControlLaw_task_space pl m td v = Some ts"
  shows "\<exists>Jv rpyd w w_nom wd_nom.
      matmul_mv (m_J_body m) v = Some Jv
    \<and> CalcRpyDtFromAngularVelocityInParent pl (m_rpy_body m) (take 3 Jv) = Some rpyd
    \<and> CalcAngularVelocityInParentFromRpyDt pl (m_rpy_body m) rpyd = Some w
    \<and> CalcAngularVelocityInParentFromRpyDt pl (m_rpy_body m) (td_rpyd_body td) = Some w_nom
    \<and> CalcAngularVelocityInParentFromRpyDt pl (m_rpy_body m) (td_rpydd_body td) = Some wd_nom
    \<and> take (length w) (ts_xd ts) = w
    \<and> take (length w_nom) (ts_xd_nom ts) = w_nom
    \<and> take (length wd_nom) (ts_xdd_nom ts) = wd_nom
    \<and> (rpyd = td_rpyd_body td \<longrightarrow>
         take (length w) (ts_xd_tilde ts) = replicate (length w) 0)"
proof -
  obtain p_lf J_lf Jdv_lf p_rf J_rf Jdv_rf p_lh J_lh Jdv_lh p_rh J_rh Jdv_rh where
    feet: "m_lf m = (p_lf, J_lf, Jdv_lf)" "m_rf m = (p_rf, J_rf, Jdv_rf)"
      "m_lh m = (p_lh, J_lh, Jdv_lh)" "m_rh m = (p_rh, J_rh, Jdv_rh)"
    by (metis prod_cases3)
  let ?s = "map Not (td_contact_states td)"
  from task_space_SomeD[OF ok feet] obtain Jv rpyd w w_nom wd_nom pd_feet where
    c: "matmul_mv (m_J_body m) v = Some Jv"
      "CalcRpyDtFromAngularVelocityInParent pl (m_rpy_body m) (take 3 Jv) = Some rpyd"
      "CalcAngularVelocityInParentFromRpyDt pl (m_rpy_body m) rpyd = Some w"
      "CalcAngularVelocityInParentFromRpyDt pl (m_rpy_body m) (td_rpyd_body td) = Some w_nom"
      "CalcAngularVelocityInParentFromRpyDt pl (m_rpy_body m) (td_rpydd_body td) = Some wd_nom"
    and x: "ts_xd ts = w @ drop 3 Jv @ concat (sel ?s pd_feet)"
      "ts_xd_nom ts = w_nom @ td_pd_body td
            @ concat (sel ?s [td_pd_lf td, td_pd_rf td, td_pd_lh td, td_pd_rh td])"
      "ts_xdd_nom ts = wd_nom @ td_pdd_body td
            @ concat (sel ?s [td_pdd_lf td, td_pdd_rf td, td_pdd_lh td, td_pdd_rh td])"
    and t: "sub (ts_xd ts) (ts_xd_nom ts) = Some (ts_xd_tilde ts)"
    by blast
  have z: "take (length w) (ts_xd_tilde ts) = replicate (length w) 0"
    if "rpyd = td_rpyd_body td"
  proof -
    from that c have "w_nom = w" by simp
    with t x show ?thesis by (auto intro: sub_common_prefix)
  qed
  show ?thesis
    using c x z by (intro exI[of _ Jv] exI[of _ rpyd] exI[of _ w] exI[of _ w_nom]
        exI[of _ wd_nom]) simp
qed

theorem nominal_rates_use_measured_orientation_witness:
  "ControlLaw_task_space ex_plant ex_m ex_td_rates ex_v_rates = Some ex_ts_rates
   \<and> m_rpy_body ex_m \<noteq> td_rpy_body ex_td_rates
   \<and> take 3 (ts_xd_nom ex_ts_rates) = [1, 0, 0]
   \<and> take 3 (ts_xd_tilde ex_ts_rates) = [0, 0, 0]"
proof -
  from nominal_rates_use_measured_orientation[OF ex_task_space_rates]
  obtain Jv rpyd w w_nom where
    a: "matmul_mv (m_J_body ex_m) ex_v_rates = Some Jv"
      "CalcRpyDtFromAngularVelocityInParent ex_plant (m_rpy_body ex_m) (take 3 Jv) = Some rpyd"
      "CalcAngularVelocityInParentFromRpyDt ex_plant (m_rpy_body ex_m) rpyd = Some w"
      "CalcAngularVelocityInParentFromRpyDt ex_plant (m_rpy_body ex_m) (td_rpyd_body ex_td_rates)
         = Some w_nom"
      "take (length w_nom) (ts_xd_nom ex_ts_rates) = w_nom"
      "rpyd = td_rpyd_body ex_td_rates \<longrightarrow>
         take (length w) (ts_xd_tilde ex_ts_rates) = replicate (length w) 0"
    by blast
  from a(1) have Jv: "Jv = [1, 0, 0, 0, 0, 0]"
    by (simp add: matmul_mv_def mv_def ex_m_def ex_J_body_def ex_v_rates_def rect_def ncols_def)
  from a(2) have rpyd: "rpyd = [1, 0, 0]"
    unfolding Jv by (simp add: ex_plant_def ex_conv_def ex_m_def)
  from a(3) have w: "w = [1, 0, 0]"
    unfolding rpyd by (simp add: ex_plant_def ex_conv_def ex_m_def)
  from a(4) have w_nom: "w_nom = [1, 0, 0]"
    by (simp add: ex_plant_def ex_conv_def ex_m_def ex_td_rates_def)
  have "rpyd = td_rpyd_body ex_td_rates"
    unfolding rpyd by (simp add: ex_td_rates_def)
  with a(5,6) have "take 3 (ts_xd_nom ex_ts_rates) = [1, 0, 0]"
    "take 3 (ts_xd_tilde ex_ts_rates) = [0, 0, 0]"
    unfolding w w_nom by (simp_all add: numeral_3_eq_3)
  moreover have "m_rpy_body ex_m \<noteq> td_rpy_body ex_td_rates"
    by (simp add: ex_m_def ex_td_rates_def)
  ultimately show ?thesis
    using ex_task_space_rates by blast
qed

section \<open>The solve and the logging\<close>




lemma length_ts_J:
  assumes ok: "ControlLaw_task_space pl m td v = Some ts"
    and feet: "m_lf m = (p_lf, J_lf, Jdv_lf)" "m_rf m = (p_rf, J_rf, Jdv_rf)"
      "m_lh m = (p_lh, J_lh, Jdv_lh)" "m_rh m = (p_rh, J_rh, Jdv_rh)"
    and body: "length (m_J_body m) = 6"
    and foot: "length J_lf = 3" "length J_rf = 3" "length J_lh = 3" "length J_rh = 3"
  shows "length (ts_J ts) = 6 + 3 * length (filter Not (td_contact_states td))"
proof -
  let ?swing = "map Not (td_contact_states td)"
  from task_space_SomeD[OF ok feet] obtain J where
    len: "td_contact_states td = [] \<or> length (td_contact_states td) = 4"
    and J: "(if list_ex id ?swing
         then vstack [m_J_body m, concat (sel ?swing [J_lf, J_rf, J_lh, J_rh])]
         else Some (m_J_body m)) = Some J"
    and ts: "ts_J ts = J"
    by blast
  have lJ: "length (concat (sel ?swing [J_lf, J_rf, J_lh, J_rh])) = 3 * length (filter id ?swing)"
    using len foot by (intro length_concat_sel) auto
  show ?thesis
    using J lJ body ts
    by (auto simp: filter_none filter_Not_none dest!: vstack_SomeD split: if_splits)
qed

lemma ControlLaw_logging_SomeD:
  assumes "ControlLaw_logging self ts vd = Some self''"
  defines "eta \<equiv> ts_x_tilde ts @ ts_xd_tilde ts"
  shows "\<exists>nu. nu_spec (ts_J ts) vd (ts_Jdv ts) (ts_xdd_nom ts) = Some nu
     \<and> rect (self_P self) \<and> rect (self_F self) \<and> rect (self_G self)
     \<and> ncols (self_P self) = length (self_F self) \<and> ncols (self_P self) = length (self_G self)
     \<and> self'' = self\<lparr>self_V := Some (dot (vm eta (self_P self)) eta),
          self_err := Some (dot (ts_x_tilde ts) (ts_x_tilde ts)),
          self_Vdot := Some (dot (vm (vm (smul 2 eta) (self_P self)) (self_F self)) eta
            + dot (vm (vm (smul 2 eta) (self_P self)) (self_G self)) nu)\<rparr>"
proof -
  from assms(1) obtain eP V err eP2 ePF ePFe ePG Jvd s nu ePGnu where
    s: "matmul_vm eta (self_P self) = Some eP" "matmul_vv eP eta = Some V"
      "matmul_vv (ts_x_tilde ts) (ts_x_tilde ts) = Some err"
      "matmul_vm (smul 2 eta) (self_P self) = Some eP2"
      "matmul_vm eP2 (self_F self) = Some ePF" "matmul_vv ePF eta = Some ePFe"
      "matmul_vm eP2 (self_G self) = Some ePG"
      "matmul_mv (ts_J ts) vd = Some Jvd" "add Jvd (ts_Jdv ts) = Some s"
      "sub s (ts_xdd_nom ts) = Some nu" "matmul_vv ePG nu = Some ePGnu"
      "self'' = self\<lparr>self_V := Some V, self_err := Some err, self_Vdot := Some (ePFe + ePGnu)\<rparr>"
    unfolding ControlLaw_logging_def eta_def Let_def
    by (auto simp: bind_eq_Some_conv)
  have nu: "nu_spec (ts_J ts) vd (ts_Jdv ts) (ts_xdd_nom ts) = Some nu"
    using s(8,9,10) by (simp add: nu_spec_def)
  from s(1,4,5,7)[THEN matmul_vm_SomeD] s(2,3,6,11)[THEN matmul_vv_SomeD] s(12) nu
  show ?thesis
    by auto
qed

lemma logged_values:
  assumes "rect P" "rect F" "rect G" "ncols P = length F" "ncols P = length G"
  shows "dot (vm eta P) eta = V_spec P eta"
    and "dot (vm (vm (smul 2 eta) P) F) eta + dot (vm (vm (smul 2 eta) P) G) nu
       = Vdot_spec P F G eta nu"
  using assms by (simp_all add: V_spec_def Vdot_spec_split vm_smul dot_smul dot_vm)

lemma ControlLaw_InrD:
  assumes "ControlLaw self pl m td v = Inr (tau, self'')"
  shows "\<exists>ts vars self'. ControlLaw_task_space pl m td v = Some ts
    \<and> ControlLaw_program self pl m ts v = Some (vars, self')
    \<and> is_success (Solve pl (self_mp self'))
    \<and> tau = map (GetSolution (Solve pl (self_mp self'))) (var_tau vars)
    \<and> ControlLaw_logging self' ts (map (GetSolution (Solve pl (self_mp self'))) (var_vd vars))
         = Some self''"
  using assms unfolding ControlLaw_def Let_def
  by (auto split: option.splits if_splits prod.splits)

text \<open>A tick whose program was built cannot fail in the logging.\<close>

lemma ControlLaw_logging_total:
  assumes "ControlLaw_program self pl m ts v = Some (vars, self')"
    and "length w = length (var_vd vars)"
  shows "\<exists>self''. ControlLaw_logging self' ts w = Some self''"
proof -
  let ?eta = "ts_x_tilde ts @ ts_xd_tilde ts"
  from ControlLaw_program_constraints[OF assms(1)] obtain d where
    self': "self' = self\<lparr>self_mp := self_mp self'\<rparr>"
    and d: "sub (ts_Jdv ts) (ts_xdd_nom ts) = Some d" "length d = ncols (self_G self)"
    and r: "rect (self_P self)" "rect (self_F self)" "rect (self_G self)" "rect (ts_J ts)"
    and l: "length ?eta = length (self_P self)" "ncols (self_P self) = length ?eta"
      "ncols (self_P self) = length (self_F self)" "ncols (self_P self) = length (self_G self)"
      "ncols (self_F self) = length ?eta" "ncols (self_G self) = length (ts_J ts)"
      "ncols (ts_J ts) = length (var_vd vars)"
    by blast
  have f: "self_P self' = self_P self" "self_F self' = self_F self" "self_G self' = self_G self"
    by (subst self', simp)+
  from sub_SomeD[OF d(1), of "length (ts_J ts)" "mv (ts_J ts) w"] d(2) l(6) obtain s where
    s: "add (mv (ts_J ts) w) (ts_Jdv ts) = Some s"
      "sub s (ts_xdd_nom ts) = Some (vadd (mv (ts_J ts) w) d)"
    by auto
  have ld: "length (vadd (mv (ts_J ts) w) d) = ncols (self_G self)"
    using d(2) l(6) by (simp add: vadd_def)
  have lv: "length (lincomb c u A) = c" if "rect A" "ncols A = c" for u A c
    using length_vm[OF that(1)] that(2) by (simp add: vm_def)
  show ?thesis
    unfolding ControlLaw_logging_def Let_def f
    using r l s ld assms(2)
    by (simp add: matmul_vm_def matmul_vv_def matmul_mv_def lv)
qed






text \<open>
  C3: a tick returns a torque only when the solver reported success, and the torque is
  then the solved \<open>tau\<close>; when the program was built and the solver does not report
  success the tick ends in the assertion error, with no torque; when it reports success
  the tick returns the solved \<open>tau\<close>.
\<close>

theorem solve_failure_is_fatal:
  "(\<forall>tau self''. ControlLaw self pl m td v = Inr (tau, self'') \<longrightarrow>
      (\<exists>ts vars self'. ControlLaw_task_space pl m td v = Some ts
         \<and> ControlLaw_program self pl m ts v = Some (vars, self')
         \<and> is_success (Solve pl (self_mp self'))
         \<and> tau = map (GetSolution (Solve pl (self_mp self'))) (var_tau vars)))
   \<and> (\<forall>ts vars self'. ControlLaw_task_space pl m td v = Some ts
         \<and> ControlLaw_program self pl m ts v = Some (vars, self') \<longrightarrow>
       (if is_success (Solve pl (self_mp self'))
        then \<exists>self''. ControlLaw self pl m td v
               = Inr (map (GetSolution (Solve pl (self_mp self'))) (var_tau vars), self'')
        else ControlLaw self pl m td v = Inl AssertionError))"
proof (intro conjI allI impI)
  fix tau self''
  assume "ControlLaw self pl m td v = Inr (tau, self'')"
  from ControlLaw_InrD[OF this]
  show "\<exists>ts vars self'. ControlLaw_task_space pl m td v = Some ts
         \<and> ControlLaw_program self pl m ts v = Some (vars, self')
         \<and> is_success (Solve pl (self_mp self'))
         \<and> tau = map (GetSolution (Solve pl (self_mp self'))) (var_tau vars)"
    by blast
next
  fix ts vars self'
  assume a: "ControlLaw_task_space pl m td v = Some ts
         \<and> ControlLaw_program self pl m ts v = Some (vars, self')"
  then have prog: "ControlLaw_program self pl m ts v = Some (vars, self')" by simp
  from ControlLaw_logging_total[OF prog,
      of "map (GetSolution (Solve pl (self_mp self'))) (var_vd vars)"]
  obtain self'' where "ControlLaw_logging self' ts
      (map (GetSolution (Solve pl (self_mp self'))) (var_vd vars)) = Some self''"
    by auto
  with a show "if is_success (Solve pl (self_mp self'))
        then \<exists>self''. ControlLaw self pl m td v
               = Inr (map (GetSolution (Solve pl (self_mp self'))) (var_tau vars), self'')
        else ControlLaw self pl m td v = Inl AssertionError"
    by (simp add: ControlLaw_def Let_def)
qed

theorem solve_failure_is_fatal_witness:
  "ControlLaw ex_self ex_plant_fail ex_m ex_td ex_v = Inl AssertionError
   \<and> (\<exists>self''. ControlLaw ex_self ex_plant ex_m ex_td ex_v
         = Inr (map (GetSolution ex_result) (var_tau ex_vars), self''))"
proof -
  have f: "\<not> is_success (Solve ex_plant_fail (self_mp (ex_self\<lparr>self_mp := ex_mp\<rparr>)))"
    by (simp add: ex_plant_fail_def)
  have s: "is_success (Solve ex_plant (self_mp (ex_self\<lparr>self_mp := ex_mp\<rparr>)))"
    "Solve ex_plant (self_mp (ex_self\<lparr>self_mp := ex_mp\<rparr>)) = ex_result"
    by (simp_all add: ex_plant_def ex_result_def)
  from solve_failure_is_fatal[of ex_self ex_plant_fail ex_m ex_td ex_v]
    ex_task_space_fail ex_program_fail
  have "if is_success (Solve ex_plant_fail (self_mp (ex_self\<lparr>self_mp := ex_mp\<rparr>)))
        then \<exists>self''. ControlLaw ex_self ex_plant_fail ex_m ex_td ex_v
               = Inr (map (GetSolution (Solve ex_plant_fail (self_mp (ex_self\<lparr>self_mp := ex_mp\<rparr>))))
                   (var_tau ex_vars), self'')
        else ControlLaw ex_self ex_plant_fail ex_m ex_td ex_v = Inl AssertionError"
    by (elim conjE allE[of _ ex_ts] allE[of _ ex_vars] allE[of _ "ex_self\<lparr>self_mp := ex_mp\<rparr>"]
        impE) (intro conjI, assumption+)
  with f have 1: "ControlLaw ex_self ex_plant_fail ex_m ex_td ex_v = Inl AssertionError"
    by (simp only: if_False)
  from solve_failure_is_fatal[of ex_self ex_plant ex_m ex_td ex_v]
    ex_task_space ex_program
  have "if is_success (Solve ex_plant (self_mp (ex_self\<lparr>self_mp := ex_mp\<rparr>)))
        then \<exists>self''. ControlLaw ex_self ex_plant ex_m ex_td ex_v
               = Inr (map (GetSolution (Solve ex_plant (self_mp (ex_self\<lparr>self_mp := ex_mp\<rparr>))))
                   (var_tau ex_vars), self'')
        else ControlLaw ex_self ex_plant ex_m ex_td ex_v = Inl AssertionError"
    by (elim conjE allE[of _ ex_ts] allE[of _ ex_vars] allE[of _ "ex_self\<lparr>self_mp := ex_mp\<rparr>"]
        impE) (intro conjI, assumption+)
  with s have 2: "\<exists>self''. ControlLaw ex_self ex_plant ex_m ex_td ex_v
         = Inr (map (GetSolution ex_result) (var_tau ex_vars), self'')"
    by (simp only: if_True)
  from 1 2 show ?thesis
    by (intro conjI)
qed

lemma dot_self_nonneg: "0 \<le> dot x x"
  by (induction x) simp_all

text \<open>
  C8, as amended: after an accepted solve the controller stores \<open>V = eta' P eta\<close>,
  \<open>Vdot\<close> at the solved \<open>vd\<close>, and in \<open>err\<close> the square of the Euclidean norm of
  \<open>x_tilde\<close>, which is not the norm itself.
\<close>

theorem logged_diagnostics:
  assumes run: "ControlLaw self pl m td v = Inr (tau, self'')"
  shows "\<exists>ts vars self' nu.
      ControlLaw_task_space pl m td v = Some ts
    \<and> ControlLaw_program self pl m ts v = Some (vars, self')
    \<and> nu_spec (ts_J ts) (map (GetSolution (Solve pl (self_mp self'))) (var_vd vars))
         (ts_Jdv ts) (ts_xdd_nom ts) = Some nu
    \<and> self_V self'' = Some (V_spec (self_P self) (ts_x_tilde ts @ ts_xd_tilde ts))
    \<and> self_Vdot self'' = Some (Vdot_spec (self_P self) (self_F self) (self_G self)
         (ts_x_tilde ts @ ts_xd_tilde ts) nu)
    \<and> self_err self'' = Some ((norm_spec (ts_x_tilde ts))\<^sup>2)"
proof -
  from ControlLaw_InrD[OF run] obtain ts vars self' where
    ts: "ControlLaw_task_space pl m td v = Some ts"
    and prog: "ControlLaw_program self pl m ts v = Some (vars, self')"
    and log: "ControlLaw_logging self' ts (map (GetSolution (Solve pl (self_mp self'))) (var_vd vars))
         = Some self''"
    by blast
  from ControlLaw_program_constraints[OF prog] have
    self': "self' = self\<lparr>self_mp := self_mp self'\<rparr>"
    by blast
  have f: "self_P self' = self_P self" "self_F self' = self_F self" "self_G self' = self_G self"
    by (subst self', simp)+
  from ControlLaw_logging_SomeD[OF log, unfolded f] obtain nu where
    nu: "nu_spec (ts_J ts) (map (GetSolution (Solve pl (self_mp self'))) (var_vd vars))
         (ts_Jdv ts) (ts_xdd_nom ts) = Some nu"
    and r: "rect (self_P self)" "rect (self_F self)" "rect (self_G self)"
      "ncols (self_P self) = length (self_F self)" "ncols (self_P self) = length (self_G self)"
    and V: "self_V self'' = Some (dot (vm (ts_x_tilde ts @ ts_xd_tilde ts) (self_P self))
         (ts_x_tilde ts @ ts_xd_tilde ts))"
    and err: "self_err self'' = Some (dot (ts_x_tilde ts) (ts_x_tilde ts))"
    and Vdot: "self_Vdot self'' = Some
         (dot (vm (vm (smul 2 (ts_x_tilde ts @ ts_xd_tilde ts)) (self_P self)) (self_F self))
            (ts_x_tilde ts @ ts_xd_tilde ts)
          + dot (vm (vm (smul 2 (ts_x_tilde ts @ ts_xd_tilde ts)) (self_P self)) (self_G self)) nu)"
    by auto
  have sq: "(norm_spec (ts_x_tilde ts))\<^sup>2 = dot (ts_x_tilde ts) (ts_x_tilde ts)"
    by (simp add: norm_spec_def dot_self_nonneg)
  show ?thesis
    using ts prog nu V err Vdot sq logged_values[OF r]
    by (intro exI[of _ ts] exI[of _ vars] exI[of _ self'] exI[of _ nu]) simp
qed

theorem logged_diagnostics_witness:
  "ControlLaw ex_self ex_plant ex_m ex_td ex_v = Inr ([- 10], ex_final)
   \<and> self_V ex_final = Some (V_spec ex_P ([0, 0, 0, 2, 0, 0] @ [0, 0, 0, 0, 0, 0]))
   \<and> self_err ex_final = Some ((norm_spec [0, 0, 0, 2, 0, 0])\<^sup>2)"
proof -
  from logged_diagnostics[OF ex_run] obtain ts where
    "ControlLaw_task_space ex_plant ex_m ex_td ex_v = Some ts"
    "self_V ex_final = Some (V_spec (self_P ex_self) (ts_x_tilde ts @ ts_xd_tilde ts))"
    "self_err ex_final = Some ((norm_spec (ts_x_tilde ts))\<^sup>2)"
    by (elim exE conjE)
  with ex_task_space ex_run show ?thesis
    by (simp add: ex_ts_def ex_self_def)
qed

text \<open>
  In the concrete tick \<open>x_tilde = (0, 0, 0, 2, 0, 0)\<close>: the controller stores
  \<open>err = 4\<close>, while the Euclidean norm of \<open>x_tilde\<close> is 2.
\<close>

theorem logged_err_is_not_the_norm:
  "ControlLaw ex_self ex_plant ex_m ex_td ex_v = Inr ([- 10], ex_final)
   \<and> ControlLaw_task_space ex_plant ex_m ex_td ex_v = Some ex_ts
   \<and> self_err ex_final = Some 4
   \<and> norm_spec (ts_x_tilde ex_ts) = 2
   \<and> self_err ex_final \<noteq> Some (norm_spec (ts_x_tilde ex_ts))"
proof -
  have n: "norm_spec (ts_x_tilde ex_ts) = 2"
    by (simp add: ex_ts_def norm_spec_def)
  have e: "self_err ex_final = Some 4"
    by (simp add: ex_final_def)
  from n e ex_run ex_task_space show ?thesis
    by simp
qed

text \<open>
  C7: what the source does when a foot is not in contact. With the \<open>G\<close> of the
  constructor (6 columns), a body Jacobian of 6 rows and foot Jacobians of 3 rows, the
  stacked Jacobian has more than 6 rows, \<^verbatim>\<open>AddVdotCost\<close> raises on the product with it, and
  the tick ends before the dynamics constraint is added: no program is built and no
  torque returned.
\<close>

theorem swing_foot_tick_raises:
  assumes feet: "m_lf m = (p_lf, J_lf, Jdv_lf)" "m_rf m = (p_rf, J_rf, Jdv_rf)"
      "m_lh m = (p_lh, J_lh, Jdv_lh)" "m_rh m = (p_rh, J_rh, Jdv_rh)"
    and body: "length (m_J_body m) = 6"
    and foot: "length J_lf = 3" "length J_rf = 3" "length J_lh = 3" "length J_rh = 3"
    and G: "self_G self = CLF_G"
    and swing: "list_ex Not (td_contact_states td)"
  shows "ControlLaw self pl m td v = Inl ShapeError
    \<and> (\<forall>ts. ControlLaw_task_space pl m td v = Some ts \<longrightarrow>
          ControlLaw_program self pl m ts v = None)"
proof -
  have none: "ControlLaw_program self pl m ts v = None"
    if ok: "ControlLaw_task_space pl m td v = Some ts" for ts
  proof (rule ccontr)
    have J: "length (ts_J ts) = 6 + 3 * length (filter Not (td_contact_states td))"
      by (rule length_ts_J[OF ok feet body foot])
    from swing have "filter Not (td_contact_states td) \<noteq> []"
      by (auto simp: list_ex_iff filter_empty_conv)
    with J have big: "length (ts_J ts) \<noteq> 6"
      by simp
    assume "ControlLaw_program self pl m ts v \<noteq> None"
    then obtain vars self' where "ControlLaw_program self pl m ts v = Some (vars, self')"
      by auto
    from ControlLaw_program_constraints[OF this]
    have "ncols (self_G self) = length (ts_J ts)" by blast
    with big G show False by (simp add: CLF_shapes)
  qed
  then show ?thesis
    by (cases "ControlLaw_task_space pl m td v") (simp_all add: ControlLaw_def)
qed

theorem swing_foot_tick_raises_witness:
  "list_ex Not (td_contact_states ex_td_flight)
   \<and> ControlLaw_task_space ex_plant ex_m ex_td_flight ex_v \<noteq> None
   \<and> ControlLaw ex_self ex_plant ex_m ex_td_flight ex_v = Inl ShapeError"
proof -
  have G: "self_G ex_self = CLF_G"
    by (simp add: ex_self_def)
  have swing: "list_ex Not (td_contact_states ex_td_flight)"
    by (simp add: ex_td_flight_def)
  from swing_foot_tick_raises[OF ex_feet ex_body(3) ex_foot ex_foot ex_foot ex_foot G swing]
  have "ControlLaw ex_self ex_plant ex_m ex_td_flight ex_v = Inl ShapeError"
    by (rule conjunct1)
  with swing ex_task_space_flight show ?thesis
    by (intro conjI)
qed

section \<open>The certificate of the constructor\<close>

lemma upt6: "[0..<6] = [0, 1, 2, 3, 4, 5]" "[0..<12] = [0, 1, 2, 3, 4, 5, 6, 7, 8, 9, 10, 11]"
  by (simp_all add: upt_rec)

lemma blk_rows: "blk a b c =
  [[a, 0, 0, 0, 0, 0, b, 0, 0, 0, 0, 0],
   [0, a, 0, 0, 0, 0, 0, b, 0, 0, 0, 0],
   [0, 0, a, 0, 0, 0, 0, 0, b, 0, 0, 0],
   [0, 0, 0, a, 0, 0, 0, 0, 0, b, 0, 0],
   [0, 0, 0, 0, a, 0, 0, 0, 0, 0, b, 0],
   [0, 0, 0, 0, 0, a, 0, 0, 0, 0, 0, b],
   [b, 0, 0, 0, 0, 0, c, 0, 0, 0, 0, 0],
   [0, b, 0, 0, 0, 0, 0, c, 0, 0, 0, 0],
   [0, 0, b, 0, 0, 0, 0, 0, c, 0, 0, 0],
   [0, 0, 0, b, 0, 0, 0, 0, 0, c, 0, 0],
   [0, 0, 0, 0, b, 0, 0, 0, 0, 0, c, 0],
   [0, 0, 0, 0, 0, b, 0, 0, 0, 0, 0, c]]"
  by (simp add: blk_def eye_def block_row_def smul_def upt6)

lemma Q_rows: "map (smul 100) (eye 12) = blk 100 0 100"
  by (simp add: blk_rows eye_def smul_def upt6)

lemma len12:
  "length x = 12 \<Longrightarrow> \<exists>x1 x2 x3 x4 x5 x6 x7 x8 x9 x10 x11 x12.
     x = [x1, x2, x3, x4, x5, x6, x7, x8, x9, x10, x11, x12 :: real]"
  by (auto simp: eval_nat_numeral length_Suc_conv)

lemma mv_blk:
  "mv (blk a b c) [x1, x2, x3, x4, x5, x6, x7, x8, x9, x10, x11, x12] =
     [a * x1 + b * x7, a * x2 + b * x8, a * x3 + b * x9, a * x4 + b * x10,
      a * x5 + b * x11, a * x6 + b * x12,
      b * x1 + c * x7, b * x2 + c * x8, b * x3 + c * x9, b * x4 + c * x10,
      b * x5 + c * x11, b * x6 + c * x12]"
  by (simp add: blk_rows mv_def)


lemma dot_commute: "dot u v = dot v u"
  by (induction u arbitrary: v) (case_tac v; simp add: mult.commute)+

lemma dot_self_pos: "x \<noteq> replicate (length x) 0 \<Longrightarrow> 0 < dot x x"
proof (induction x)
  case Nil
  then show ?case by simp
next
  case (Cons a x)
  show ?case
  proof (cases "a = 0")
    case True
    with Cons show ?thesis by simp
  next
    case False
    then have "0 < a * a"
      using zero_less_power2[of a] by (simp add: power2_eq_square)
    with dot_self_nonneg[of x] show ?thesis by simp
  qed
qed

text \<open>An eigenvalue of a positive-definite matrix is positive.\<close>

lemma eigenvalue_pos:
  assumes "positive_definite A" "is_eigenvalue A lam"
  shows "0 < lam"
proof -
  from assms(2) obtain x where x: "length x = length A" "x \<noteq> replicate (length A) 0"
    "mv A x = smul lam x"
    by (auto simp: is_eigenvalue_def)
  from assms(1) x(1,2) have "0 < dot x (mv A x)"
    unfolding positive_definite_def by blast
  also have "dot x (mv A x) = dot (smul lam x) x"
    unfolding x(3) by (rule dot_commute)
  also have "\<dots> = lam * dot x x"
    by (rule dot_smul)
  finally have "0 < lam * dot x x" .
  moreover have "0 < dot x x"
    using x(1,2) by (intro dot_self_pos) simp
  ultimately show ?thesis
    by (simp add: zero_less_mult_iff)
qed

text \<open>The only eigenvalue of \<open>Q = 100 I\<close> is 100.\<close>

lemma eigenvalue_Q:
  assumes "is_eigenvalue (map (smul 100) (eye 12)) lam"
  shows "lam = 100"
proof -
  have l: "length (blk 100 0 100) = 12"
    by (simp add: blk_rows)
  from assms obtain x where x: "length x = 12" "x \<noteq> replicate 12 0"
    "mv (blk 100 0 100) x = smul lam x"
    unfolding is_eigenvalue_def Q_rows l by blast
  from len12[OF x(1)] obtain x1 x2 x3 x4 x5 x6 x7 x8 x9 x10 x11 x12 where
    e: "x = [x1, x2, x3, x4, x5, x6, x7, x8, x9, x10, x11, x12]"
    by blast
  from x(2,3) show ?thesis
    unfolding e mv_blk by (auto simp: smul_def eval_nat_numeral)
qed

lemma Min_Max_of_list:
  assumes "xs \<noteq> []" "\<forall>x\<in>set xs. P x"
  shows "P (Min (set xs))" "P (Max (set xs))"
proof -
  have "Min (set xs) \<in> set xs" "Max (set xs) \<in> set xs"
    using assms(1) by (simp_all add: Min_in Max_in)
  with assms(2) show "P (Min (set xs))" "P (Max (set xs))"
    by blast+
qed

lemma symmetric_blk: "symmetric (blk a b c)"
proof -
  have n: "ncols (blk a b c) = 12"
    by (simp add: blk_rows ncols_def)
  have r: "rect (blk a b c)"
    unfolding rect_def n by (simp add: blk_rows)
  have "transpose_m (blk a b c) = blk a b c"
    unfolding transpose_m_def n upt6 by (simp add: blk_rows)
  with r show ?thesis
    by (simp add: symmetric_def)
qed

lemma quad_form_nonneg:
  fixes a b c u w :: real
  assumes "0 < a" "b * b < a * c"
  shows "0 \<le> a * (u * u) + 2 * b * (u * w) + c * (w * w)"
    and "a * (u * u) + 2 * b * (u * w) + c * (w * w) = 0 \<Longrightarrow> u = 0 \<and> w = 0"
proof -
  let ?q = "a * (u * u) + 2 * b * (u * w) + c * (w * w)"
  have e: "a * ?q = (a * u + b * w)\<^sup>2 + (a * c - b * b) * w\<^sup>2"
    by (simp add: power2_eq_square algebra_simps)
  have p: "0 \<le> (a * u + b * w)\<^sup>2" "0 \<le> (a * c - b * b) * w\<^sup>2"
    using assms(2) by simp_all
  then have "0 \<le> a * ?q"
    unfolding e by simp
  with assms(1) show "0 \<le> ?q"
    by (simp add: zero_le_mult_iff)
  assume "?q = 0"
  then have "(a * u + b * w)\<^sup>2 + (a * c - b * b) * w\<^sup>2 = 0"
    using e by simp
  with p have z: "(a * u + b * w)\<^sup>2 = 0" "(a * c - b * b) * w\<^sup>2 = 0"
    by linarith+
  from z(2) assms(2) have w: "w = 0" by simp
  with z(1) assms(1) show "u = 0 \<and> w = 0" by simp
qed

lemma positive_definite_blk:
  assumes "0 < a" "b * b < a * c"
  shows "positive_definite (blk a b c)"
  unfolding positive_definite_def
proof (intro allI impI)
  fix x :: vec
  have l: "length (blk a b c) = 12"
    by (simp add: blk_rows)
  assume "length x = length (blk a b c) \<and> x \<noteq> replicate (length (blk a b c)) 0"
  then have lx: "length x = 12" and nz: "x \<noteq> replicate 12 0"
    unfolding l by blast+
  from len12[OF lx] obtain x1 x2 x3 x4 x5 x6 x7 x8 x9 x10 x11 x12 where
    e: "x = [x1, x2, x3, x4, x5, x6, x7, x8, x9, x10, x11, x12]"
    by blast
  define q where "q u w = a * (u * u) + 2 * b * (u * w) + c * (w * w)" for u w
  have s: "dot x (mv (blk a b c) x) = q x1 x7 + q x2 x8 + q x3 x9 + q x4 x10 + q x5 x11 + q x6 x12"
    unfolding e mv_blk q_def by (simp add: algebra_simps)
  have n: "0 \<le> q u w" for u w
    unfolding q_def by (rule quad_form_nonneg(1)[OF assms])
  have z: "u = 0 \<and> w = 0" if "q u w = 0" for u w
    using that unfolding q_def by (rule quad_form_nonneg(2)[OF assms])
  show "0 < dot x (mv (blk a b c) x)"
  proof (rule ccontr)
    assume "\<not> 0 < dot x (mv (blk a b c) x)"
    with s have le: "q x1 x7 + q x2 x8 + q x3 x9 + q x4 x10 + q x5 x11 + q x6 x12 \<le> 0"
      by simp
    have "q x1 x7 = 0" "q x2 x8 = 0" "q x3 x9 = 0" "q x4 x10 = 0" "q x5 x11 = 0" "q x6 x12 = 0"
      using le n[of x1 x7] n[of x2 x8] n[of x3 x9] n[of x4 x10] n[of x5 x11] n[of x6 x12]
      by linarith+
    then have "x = [0, 0, 0, 0, 0, 0, 0, 0, 0, 0, 0, 0]"
      unfolding e by (auto dest: z)
    with nz show False
      by (simp add: eval_nat_numeral)
  qed
qed

lemma CLF_rows:
  "CLF_F = [[0, 0, 0, 0, 0, 0, 1, 0, 0, 0, 0, 0],
            [0, 0, 0, 0, 0, 0, 0, 1, 0, 0, 0, 0],
            [0, 0, 0, 0, 0, 0, 0, 0, 1, 0, 0, 0],
            [0, 0, 0, 0, 0, 0, 0, 0, 0, 1, 0, 0],
            [0, 0, 0, 0, 0, 0, 0, 0, 0, 0, 1, 0],
            [0, 0, 0, 0, 0, 0, 0, 0, 0, 0, 0, 1],
            [0, 0, 0, 0, 0, 0, 0, 0, 0, 0, 0, 0],
            [0, 0, 0, 0, 0, 0, 0, 0, 0, 0, 0, 0],
            [0, 0, 0, 0, 0, 0, 0, 0, 0, 0, 0, 0],
            [0, 0, 0, 0, 0, 0, 0, 0, 0, 0, 0, 0],
            [0, 0, 0, 0, 0, 0, 0, 0, 0, 0, 0, 0],
            [0, 0, 0, 0, 0, 0, 0, 0, 0, 0, 0, 0]]"
  "CLF_G = [[0, 0, 0, 0, 0, 0], [0, 0, 0, 0, 0, 0], [0, 0, 0, 0, 0, 0],
            [0, 0, 0, 0, 0, 0], [0, 0, 0, 0, 0, 0], [0, 0, 0, 0, 0, 0],
            [1, 0, 0, 0, 0, 0], [0, 1, 0, 0, 0, 0], [0, 0, 1, 0, 0, 0],
            [0, 0, 0, 1, 0, 0], [0, 0, 0, 0, 1, 0], [0, 0, 0, 0, 0, 1]]"
  "eye 6 = [[1, 0, 0, 0, 0, 0], [0, 1, 0, 0, 0, 0], [0, 0, 1, 0, 0, 0],
            [0, 0, 0, 1, 0, 0], [0, 0, 0, 0, 1, 0], [0, 0, 0, 0, 0, 1]]"
  by code_simp+

lemma care_blk:
  assumes "a = 10 * c" "c * c = 120"
  shows "madd (msub (madd (mm (transpose_m CLF_F) (blk a 10 c)) (mm (blk a 10 c) CLF_F))
                (mm (mm (mm (mm (blk a 10 c) CLF_G) (eye 6)) (transpose_m CLF_G)) (blk a 10 c)))
           (map (smul 100) (eye 12))
         = zeros (length CLF_F) (length CLF_F)"
  unfolding Q_rows CLF_rows blk_rows
  by (simp add: mm_def vm_def ncols_def vadd_def smul_def madd_def msub_def zeros_def
      transpose_m_def upt6 eval_nat_numeral assms)


lemma sqrt30: "sqrt 30 * sqrt 30 = 30"
  by simp

lemma riccati_ex:
  "riccati_solution CLF_F CLF_G (map (smul 100) (eye 12)) (eye 6) ex_care_P"
proof -
  have pd: "positive_definite ex_care_P"
    unfolding ex_care_P_def
  proof (rule positive_definite_blk)
    show "0 < 20 * sqrt 30" by simp
    have "20 * sqrt 30 * (2 * sqrt 30) = 40 * (sqrt 30 * sqrt 30)" by simp
    then show "(10::real) * 10 < 20 * sqrt 30 * (2 * sqrt 30)"
      unfolding sqrt30 by simp
  qed
  have "2 * sqrt 30 * (2 * sqrt 30) = 4 * (sqrt 30 * sqrt 30)" by simp
  then have c: "2 * sqrt 30 * (2 * sqrt 30) = 120"
    unfolding sqrt30 by simp
  have care: "madd (msub (madd (mm (transpose_m CLF_F) ex_care_P) (mm ex_care_P CLF_F))
                (mm (mm (mm (mm ex_care_P CLF_G) (eye 6)) (transpose_m CLF_G)) ex_care_P))
           (map (smul 100) (eye 12))
         = zeros (length CLF_F) (length CLF_F)"
    unfolding ex_care_P_def by (rule care_blk[OF _ c]) simp
  have inv: "mm (eye 6) (eye 6) = eye (length (eye 6))"
    by code_simp
  have len: "length ex_care_P = length CLF_F"
    by (simp add: ex_care_P_def blk_rows CLF_rows)
  show ?thesis
    unfolding riccati_solution_def
    using symmetric_blk[of "20 * sqrt 30" 10 "2 * sqrt 30"] pd len care inv
    by (auto simp: ex_care_P_def)
qed

lemma eigen_blk:
  fixes a b c :: real
  assumes "b \<noteq> 0"
  defines "lam \<equiv> (a + c + sqrt ((a - c)\<^sup>2 + 4 * b\<^sup>2)) / 2"
  shows "is_eigenvalue (blk a b c) lam"
proof -
  define r where "r = sqrt ((a - c)\<^sup>2 + 4 * b\<^sup>2)"
  have r2: "r * r = (a - c)\<^sup>2 + 4 * b\<^sup>2"
    unfolding r_def by (simp add: power2_eq_square[symmetric])
  have lam: "2 * lam = a + c + r"
    unfolding lam_def r_def by simp
  have char: "b * b + c * (lam - a) = lam * (lam - a)"
    using r2 lam by algebra
  let ?x = "[b, 0, 0, 0, 0, 0, lam - a, 0, 0, 0, 0, 0]"
  have "mv (blk a b c) ?x = smul lam ?x"
    unfolding mv_blk using char by (simp add: smul_def algebra_simps)
  moreover have "length ?x = length (blk a b c)" "?x \<noteq> replicate (length (blk a b c)) 0"
    using assms(1) by (simp_all add: blk_rows eval_nat_numeral)
  ultimately show ?thesis
    unfolding is_eigenvalue_def by blast
qed

lemma eigvals_ex:
  "returns_eigenvalues ex_eigvals (map (smul 100) (eye 12))"
  "returns_eigenvalues ex_eigvals ex_care_P"
proof -
  have "ex_eigvals (blk 100 0 100) = [100]"
    by (simp add: ex_eigvals_def blk_rows)
  moreover have "is_eigenvalue (blk 100 0 100) 100"
  proof -
    let ?x = "[1, 0, 0, 0, 0, 0, 0, 0, 0, 0, 0, 0] :: vec"
    have "mv (blk 100 0 100) ?x = smul 100 ?x"
      unfolding mv_blk by (simp add: smul_def)
    moreover have "length ?x = length (blk 100 0 100)"
      "?x \<noteq> replicate (length (blk 100 0 100)) 0"
      by (simp_all add: blk_rows eval_nat_numeral)
    ultimately show ?thesis
      unfolding is_eigenvalue_def by blast
  qed
  ultimately show "returns_eigenvalues ex_eigvals (map (smul 100) (eye 12))"
    by (simp add: returns_eigenvalues_def Q_rows)
  have "ex_eigvals (blk (20 * sqrt 30) 10 (2 * sqrt 30))
      = [(20 * sqrt 30 + 2 * sqrt 30
          + sqrt ((20 * sqrt 30 - 2 * sqrt 30)\<^sup>2 + 4 * 10\<^sup>2)) / 2]"
    unfolding ex_eigvals_def blk_rows by simp
  with eigen_blk[of 10 "20 * sqrt 30" "2 * sqrt 30"]
  show "returns_eigenvalues ex_eigvals ex_care_P"
    by (simp add: returns_eigenvalues_def ex_care_P_def)
qed

text \<open>
  C4: the constructor calls the Riccati solver with its \<open>F\<close> and \<open>G\<close>, \<open>Q = 100 I\<close> of
  size 12 and \<open>R = I\<close> of size 6. When the solver returns the solution the specification
  describes and the eigenvalue routine returns eigenvalues, the stored \<open>P\<close> is symmetric
  and positive definite, the smallest eigenvalue of \<open>Q\<close> is 100, the largest of \<open>P\<close> is
  positive, and the stored \<open>gamma\<close>, their quotient, is positive.
\<close>

theorem init_certificate:
  assumes care: "riccati_solution CLF_F CLF_G (map (smul 100) (eye 12)) (eye 6)
       (care CLF_F CLF_G (map (smul 100) (eye 12)) (eye 6))"
    and evQ: "returns_eigenvalues eigvals (map (smul 100) (eye 12))"
    and evP: "returns_eigenvalues eigvals (care CLF_F CLF_G (map (smul 100) (eye 12)) (eye 6))"
  shows "self_P (init care eigvals) = care CLF_F CLF_G (map (smul 100) (eye 12)) (eye 6)
    \<and> symmetric (self_P (init care eigvals))
    \<and> positive_definite (self_P (init care eigvals))
    \<and> self_gamma (init care eigvals)
        = Min (set (eigvals (map (smul 100) (eye 12))))
          / Max (set (eigvals (self_P (init care eigvals))))
    \<and> Min (set (eigvals (map (smul 100) (eye 12)))) = 100
    \<and> 0 < Max (set (eigvals (self_P (init care eigvals))))
    \<and> 0 < self_gamma (init care eigvals)"
proof -
  let ?Q = "map (smul 100) (eye 12)"
  let ?P = "care CLF_F CLF_G ?Q (eye 6)"
  have P: "self_P (init care eigvals) = ?P"
    by (simp add: init_def Let_def)
  have g: "self_gamma (init care eigvals) = Min (set (eigvals ?Q)) / Max (set (eigvals ?P))"
    by (simp add: init_def Let_def)
  from care have sym: "symmetric ?P" and pd: "positive_definite ?P"
    by (simp_all add: riccati_solution_def)
  from evQ have "eigvals ?Q \<noteq> []" "\<forall>lam\<in>set (eigvals ?Q). lam = 100"
    by (auto simp: returns_eigenvalues_def dest: eigenvalue_Q)
  from Min_Max_of_list(1)[OF this] have minQ: "Min (set (eigvals ?Q)) = 100" .
  from evP pd have "eigvals ?P \<noteq> []" "\<forall>lam\<in>set (eigvals ?P). 0 < lam"
    by (auto simp: returns_eigenvalues_def intro: eigenvalue_pos)
  from Min_Max_of_list(2)[OF this] have maxP: "0 < Max (set (eigvals ?P))" .
  from minQ maxP have "0 < Min (set (eigvals ?Q)) / Max (set (eigvals ?P))"
    by simp
  with P g sym pd minQ maxP show ?thesis
    by simp
qed

theorem init_certificate_witness:
  "riccati_solution CLF_F CLF_G (map (smul 100) (eye 12)) (eye 6)
     (ex_care CLF_F CLF_G (map (smul 100) (eye 12)) (eye 6))
   \<and> returns_eigenvalues ex_eigvals (map (smul 100) (eye 12))
   \<and> returns_eigenvalues ex_eigvals (ex_care CLF_F CLF_G (map (smul 100) (eye 12)) (eye 6))
   \<and> self_P (init ex_care ex_eigvals) = ex_care_P
   \<and> symmetric (self_P (init ex_care ex_eigvals))
   \<and> positive_definite (self_P (init ex_care ex_eigvals))
   \<and> 0 < self_gamma (init ex_care ex_eigvals)"
proof -
  have c: "ex_care CLF_F CLF_G (map (smul 100) (eye 12)) (eye 6) = ex_care_P"
    by (simp add: ex_care_def)
  note h = riccati_ex[folded c] eigvals_ex(1) eigvals_ex(2)[folded c]
  note t = init_certificate[of ex_care ex_eigvals, OF h]
  from t have "self_P (init ex_care ex_eigvals) = ex_care_P"
    unfolding c by (rule conjunct1)
  moreover from t have "symmetric (self_P (init ex_care ex_eigvals))"
    "positive_definite (self_P (init ex_care ex_eigvals))"
    "0 < self_gamma (init ex_care ex_eigvals)"
    by blast+
  ultimately show ?thesis
    using h by (intro conjI)
qed

end
